theory Spec2Isabelle
  imports Complex_Main
begin

section \<open>Data model of the room server (src/useSocket.ts, server part)\<close>

text \<open>
  The server keeps one table \<open>rooms\<close> from room ids to room states, and Socket.IO keeps
  for every socket the broadcast rooms the socket has joined. Identifiers are strings.
  A JavaScript \<open>number\<close> is modelled as a real: the handlers only store and forward
  positions, they never compute with them. The fields \<open>id\<close>, \<open>name\<close> and \<open>image\<close> of
  \<open>RoomMember\<close> carry the prefix \<open>m_\<close>, since \<open>id\<close> and \<open>image\<close> are constants of HOL.
\<close>

type_synonym socket_id = string
type_synonym room_id = string

record RoomMember =
  m_id :: string
  m_name :: string
  m_image :: "string option"

record VideoState =
  url :: string
  timestamp :: real
  isPlaying :: bool

subsection \<open>JavaScript \<open>Map\<close> as an association list in insertion order\<close>

text \<open>
  \<open>Map_set\<close> overwrites the value of a key that is present, keeping its position, and
  appends a new key at the end; \<open>Map_delete\<close> removes the key; \<open>Map_values\<close> lists the
  values in insertion order (\<open>Array.from(m.values())\<close>).
\<close>

type_synonym ('k, 'v) js_map = "('k \<times> 'v) list"

fun Map_get :: "('k, 'v) js_map \<Rightarrow> 'k \<Rightarrow> 'v option" where
  "Map_get [] k = None"
| "Map_get ((k', v) # m) k = (if k' = k then Some v else Map_get m k)"

definition Map_has :: "('k, 'v) js_map \<Rightarrow> 'k \<Rightarrow> bool" where
  "Map_has m k = (Map_get m k \<noteq> None)"

fun Map_set :: "('k, 'v) js_map \<Rightarrow> 'k \<Rightarrow> 'v \<Rightarrow> ('k, 'v) js_map" where
  "Map_set [] k v = [(k, v)]"
| "Map_set ((k', v') # m) k v =
     (if k' = k then (k, v) # m else (k', v') # Map_set m k v)"

fun Map_delete :: "('k, 'v) js_map \<Rightarrow> 'k \<Rightarrow> ('k, 'v) js_map" where
  "Map_delete [] k = []"
| "Map_delete ((k', v') # m) k =
     (if k' = k then Map_delete m k else (k', v') # Map_delete m k)"

definition Map_values :: "('k, 'v) js_map \<Rightarrow> 'v list" where
  "Map_values m = map snd m"

definition Map_size :: "('k, 'v) js_map \<Rightarrow> nat" where
  "Map_size m = length m"

record RoomState =
  members :: "(string, RoomMember) js_map"
  videoState :: "VideoState option"

subsection \<open>Socket.IO: broadcast rooms and emissions\<close>

text \<open>
  The adapter is the list of pairs (socket, room) such that the socket has joined the
  room. \<open>socket.join\<close> adds a pair, \<open>socket.leave\<close> removes it, and Socket.IO removes
  every pair of a socket before it fires that socket's \<open>disconnect\<close> event.

  The three ways the handlers emit:
  \<^item> \<open>socket.emit(...)\<close>: to the socket itself (\<open>ToSocket\<close>);
  \<^item> \<open>socket.to(room).emit(...)\<close>: to every socket joined to the room except the
    emitting socket (\<open>ToRoomExceptSender\<close>);
  \<^item> \<open>io.to(room).emit(...)\<close>: to every socket joined to the room (\<open>ToRoom\<close>).
  An emission is recorded with the sockets that receive it, looked up in the adapter at
  the moment of the call. The private room that Socket.IO gives every socket under the
  socket's own id is left out: the room ids of the events are not socket ids.
\<close>

type_synonym adapter = "(socket_id \<times> room_id) list"

definition socket_join :: "adapter \<Rightarrow> socket_id \<Rightarrow> room_id \<Rightarrow> adapter" where
  "socket_join A s r = (if (s, r) \<in> set A then A else A @ [(s, r)])"

definition socket_leave :: "adapter \<Rightarrow> socket_id \<Rightarrow> room_id \<Rightarrow> adapter" where
  "socket_leave A s r = removeAll (s, r) A"

definition leaveAll :: "adapter \<Rightarrow> socket_id \<Rightarrow> adapter" where
  "leaveAll A s = filter (\<lambda>p. fst p \<noteq> s) A"

definition sockets_in :: "adapter \<Rightarrow> room_id \<Rightarrow> socket_id list" where
  "sockets_in A r = remdups (map fst (filter (\<lambda>p. snd p = r) A))"

datatype target =
    ToSocket socket_id
  | ToRoomExceptSender room_id socket_id
  | ToRoom room_id

datatype payload =
    RoomStateEv "RoomMember list"
  | MemberJoined RoomMember
  | MemberLeft RoomMember
  | UrlChanged string real
  | VideoStateUpdated bool real
  | VideoStateFull VideoState
  | NewMessage RoomMember string string
  | NewMessageFrom socket_id string string

fun recipients :: "adapter \<Rightarrow> target \<Rightarrow> socket_id list" where
  "recipients A (ToSocket s) = [s]"
| "recipients A (ToRoomExceptSender r s) = filter (\<lambda>c. c \<noteq> s) (sockets_in A r)"
| "recipients A (ToRoom r) = sockets_in A r"

record emission =
  target :: target
  receivers :: "socket_id list"
  payload :: payload

definition emit :: "adapter \<Rightarrow> target \<Rightarrow> payload \<Rightarrow> emission" where
  "emit A t p = \<lparr>target = t, receivers = recipients A t, payload = p\<rparr>"

record server =
  rooms :: "(room_id, RoomState) js_map"
  adapter :: adapter

definition init_server :: server where
  "init_server = \<lparr>rooms = [], adapter = []\<rparr>"

datatype error = TypeError

section \<open>The handlers\<close>

subsection \<open>join-room\<close>

text \<open>
  \<open>rooms.get(roomId)!\<close> asserts that the lookup succeeds; were it undefined, reading
  \<open>room.members\<close> would throw, which is the \<open>Inl TypeError\<close> branch. The room object is
  shared with the table, so the updated room is written back under its key.
\<close>

definition join_room ::
  "server \<Rightarrow> socket_id \<Rightarrow> room_id \<Rightarrow> RoomMember \<Rightarrow> error + server \<times> emission list" where
  "join_room \<sigma> s roomId user =
     (let A = socket_join (adapter \<sigma>) s roomId;
          rs = (if \<not> Map_has (rooms \<sigma>) roomId
                then Map_set (rooms \<sigma>) roomId \<lparr>members = [], videoState = None\<rparr>
                else rooms \<sigma>)
      in case Map_get rs roomId of
           None \<Rightarrow> Inl TypeError
         | Some room \<Rightarrow>
             (let room' = room\<lparr>members := Map_set (members room) (m_id user) user\<rparr>;
                  ms = Map_values (members room')
              in Inr (\<lparr>rooms = Map_set rs roomId room', adapter = A\<rparr>,
                      [emit A (ToSocket s) (RoomStateEv ms),
                       emit A (ToRoomExceptSender roomId s) (MemberJoined user)])))"

subsection \<open>leave-room\<close>

text \<open>
  The socket leaves the broadcast room first. When the room has a state, the member id is
  deleted from it, member-left goes to the rest of the broadcast room, and then the room
  is either dropped from the table (no member left) or its member list is sent to the
  whole broadcast room.
\<close>

definition leave_room ::
  "server \<Rightarrow> socket_id \<Rightarrow> room_id \<Rightarrow> RoomMember \<Rightarrow> server \<times> emission list" where
  "leave_room \<sigma> s roomId user =
     (let A = socket_leave (adapter \<sigma>) s roomId
      in case Map_get (rooms \<sigma>) roomId of
           None \<Rightarrow> (\<lparr>rooms = rooms \<sigma>, adapter = A\<rparr>, [])
         | Some room \<Rightarrow>
             (let room' = room\<lparr>members := Map_delete (members room) (m_id user)\<rparr>;
                  left = emit A (ToRoomExceptSender roomId s) (MemberLeft user)
              in if Map_size (members room') = 0
                 then (\<lparr>rooms = Map_delete (rooms \<sigma>) roomId, adapter = A\<rparr>, [left])
                 else (\<lparr>rooms = Map_set (rooms \<sigma>) roomId room', adapter = A\<rparr>,
                       [left,
                        emit A (ToRoom roomId)
                          (RoomStateEv (Map_values (members room')))])))"

subsection \<open>convertToEmbedUrl\<close>

text \<open>
  \<open>new URL(url)\<close> is the platform's URL parser; it is a parameter \<open>parse\<close> of the model
  that answers \<open>None\<close> where the constructor throws, and otherwise the three parts of
  the URL object that the function reads. \<open>searchParams.get\<close> answers the value of the
  first pair with the given name; an empty video id is falsy.
\<close>

record URL =
  hostname :: string
  pathname :: string
  searchParams :: "(string \<times> string) list"

type_synonym url_parser = "string \<Rightarrow> URL option"

definition searchParams_get :: "(string \<times> string) list \<Rightarrow> string \<Rightarrow> string option" where
  "searchParams_get ps n = map_of ps n"

definition watch_videoId :: "URL \<Rightarrow> string option" where
  "watch_videoId urlObj =
     (if hostname urlObj = ''www.youtube.com'' \<or> hostname urlObj = ''youtube.com''
      then (case searchParams_get (searchParams urlObj) ''v'' of
              None \<Rightarrow> None
            | Some videoId \<Rightarrow> if videoId \<noteq> [] then Some videoId else None)
      else None)"

definition convertToEmbedUrl :: "url_parser \<Rightarrow> string \<Rightarrow> string" where
  "convertToEmbedUrl parse u =
     (case parse u of
        None \<Rightarrow> u
      | Some urlObj \<Rightarrow>
          (case watch_videoId urlObj of
             Some videoId \<Rightarrow> ''https://www.youtube.com/embed/'' @ videoId
           | None \<Rightarrow>
               if hostname urlObj = ''youtu.be''
               then ''https://www.youtube.com/embed/'' @ drop 1 (pathname urlObj)
               else u))"

text \<open>
  The inputs on which the function may rewrite: a youtube.com URL with a non-empty
  \<open>v\<close> parameter, or a youtu.be URL.
\<close>

definition convertible :: "url_parser \<Rightarrow> string \<Rightarrow> bool" where
  "convertible parse u =
     (case parse u of
        None \<Rightarrow> False
      | Some urlObj \<Rightarrow> watch_videoId urlObj \<noteq> None \<or> hostname urlObj = ''youtu.be'')"

subsection \<open>A URL parser for plain http and https URLs\<close>

text \<open>
  For evaluating the handlers on concrete URLs: the URL Standard's parser on the strings
  \<open>http://host/path?query#fragment\<close> and \<open>https://...\<close> whose host is made of lower-case
  letters and dots and whose path and query are made of characters that the parser
  neither encodes, decodes nor normalises. A string without a scheme is not a URL
  (\<open>None\<close>). Other strings are outside this fragment and are answered \<open>None\<close> as well;
  the theorems that range over all strings are stated for an arbitrary parser and do not
  use this one.
\<close>

definition host_char :: "char \<Rightarrow> bool" where
  "host_char c = (c \<in> set ''abcdefghijklmnopqrstuvwxyz.'')"

definition plain_char :: "char \<Rightarrow> bool" where
  "plain_char c =
     (c \<in> set ''abcdefghijklmnopqrstuvwxyzABCDEFGHIJKLMNOPQRSTUVWXYZ0123456789-_'')"

definition path_char :: "char \<Rightarrow> bool" where
  "path_char c = (plain_char c \<or> c = CHR ''/'')"

definition query_char :: "char \<Rightarrow> bool" where
  "query_char c = (plain_char c \<or> c \<in> set ''=&?/.'')"

fun split_on :: "char \<Rightarrow> string \<Rightarrow> string list" where
  "split_on c [] = [[]]"
| "split_on c (x # xs) =
     (if x = c then [] # split_on c xs
      else (case split_on c xs of
              [] \<Rightarrow> [[x]]
            | w # ws \<Rightarrow> (x # w) # ws))"

definition parse_pair :: "string \<Rightarrow> string \<times> string" where
  "parse_pair s =
     (takeWhile (\<lambda>c. c \<noteq> CHR ''='') s, drop 1 (dropWhile (\<lambda>c. c \<noteq> CHR ''='') s))"

definition parse_query :: "string \<Rightarrow> (string \<times> string) list" where
  "parse_query q = map parse_pair (filter (\<lambda>s. s \<noteq> []) (split_on CHR ''&'' q))"

definition after_scheme :: "string \<Rightarrow> string option" where
  "after_scheme u =
     (if take 8 u = ''https://'' then Some (drop 8 u)
      else if take 7 u = ''http://'' then Some (drop 7 u)
      else None)"

definition parseURL :: url_parser where
  "parseURL u =
     (case after_scheme u of
        None \<Rightarrow> None
      | Some r \<Rightarrow>
          (let host = takeWhile (\<lambda>c. c \<notin> set ''/?#'') r;
               r1 = dropWhile (\<lambda>c. c \<notin> set ''/?#'') r;
               path = takeWhile (\<lambda>c. c \<notin> set ''?#'') r1;
               r2 = dropWhile (\<lambda>c. c \<notin> set ''?#'') r1;
               query = (case r2 of
                          [] \<Rightarrow> []
                        | c # q \<Rightarrow> if c = CHR ''?''
                                   then takeWhile (\<lambda>c. c \<noteq> CHR ''#'') q else [])
           in if host \<noteq> [] \<and> list_all host_char host \<and> list_all path_char path
                 \<and> list_all query_char query
              then Some \<lparr>hostname = host,
                         pathname = (if path = [] then ''/'' else path),
                         searchParams = parse_query query\<rparr>
              else None))"

subsection \<open>sync-url, video-state-change, request-video-state, chat-message\<close>

text \<open>
  \<open>timestamp = 0\<close> in the parameter list of sync-url: an absent timestamp is 0.
\<close>

definition sync_url ::
  "url_parser \<Rightarrow> server \<Rightarrow> socket_id \<Rightarrow> room_id \<Rightarrow> string \<Rightarrow> real option
     \<Rightarrow> server \<times> emission list" where
  "sync_url parse \<sigma> s roomId u ts =
     (let embedUrl = convertToEmbedUrl parse u;
          t = (case ts of None \<Rightarrow> 0 | Some x \<Rightarrow> x);
          rs = (case Map_get (rooms \<sigma>) roomId of
                  None \<Rightarrow> rooms \<sigma>
                | Some room \<Rightarrow>
                    Map_set (rooms \<sigma>) roomId
                      (room\<lparr>videoState :=
                         Some \<lparr>url = embedUrl, timestamp = t, isPlaying = True\<rparr>\<rparr>))
      in (\<lparr>rooms = rs, adapter = adapter \<sigma>\<rparr>,
          [emit (adapter \<sigma>) (ToRoomExceptSender roomId s) (UrlChanged embedUrl t)]))"

definition video_state_change ::
  "server \<Rightarrow> socket_id \<Rightarrow> room_id \<Rightarrow> bool \<Rightarrow> real \<Rightarrow> server \<times> emission list" where
  "video_state_change \<sigma> s roomId playing t =
     (let rs = (case Map_get (rooms \<sigma>) roomId of
                  None \<Rightarrow> rooms \<sigma>
                | Some room \<Rightarrow>
                    (case videoState room of
                       None \<Rightarrow> rooms \<sigma>
                     | Some vs \<Rightarrow>
                         Map_set (rooms \<sigma>) roomId
                           (room\<lparr>videoState :=
                              Some (vs\<lparr>isPlaying := playing, timestamp := t\<rparr>)\<rparr>)))
      in (\<lparr>rooms = rs, adapter = adapter \<sigma>\<rparr>,
          [emit (adapter \<sigma>) (ToRoomExceptSender roomId s) (VideoStateUpdated playing t)]))"

definition request_video_state ::
  "server \<Rightarrow> socket_id \<Rightarrow> room_id \<Rightarrow> server \<times> emission list" where
  "request_video_state \<sigma> s roomId =
     (case Map_get (rooms \<sigma>) roomId of
        None \<Rightarrow> (\<sigma>, [])
      | Some room \<Rightarrow>
          (case videoState room of
             None \<Rightarrow> (\<sigma>, [])
           | Some vs \<Rightarrow> (\<sigma>, [emit (adapter \<sigma>) (ToSocket s) (VideoStateFull vs)])))"

text \<open>
  \<open>now\<close> is the string that \<open>new Date().toISOString()\<close> returns when the handler runs:
  the server's clock in the ISO 8601 format of the platform.
\<close>

definition chat_message ::
  "string \<Rightarrow> server \<Rightarrow> socket_id \<Rightarrow> room_id \<Rightarrow> string \<Rightarrow> RoomMember
     \<Rightarrow> server \<times> emission list" where
  "chat_message now \<sigma> s roomId message user =
     (\<sigma>, [emit (adapter \<sigma>) (ToRoom roomId) (NewMessage user message now)])"

text \<open>
  The chat-message handler of src/src/server/socket.ts, which keeps no room table and
  names the sender by its socket id.
\<close>

definition initSocket_chat_message ::
  "string \<Rightarrow> adapter \<Rightarrow> socket_id \<Rightarrow> room_id \<Rightarrow> string \<Rightarrow> emission list" where
  "initSocket_chat_message now A s roomId message =
     [emit A (ToRoom roomId) (NewMessageFrom s message now)]"

subsection \<open>disconnect\<close>

text \<open>
  The handler walks every room and every member entry of the room and acts on the
  entries whose key equals the id of the socket. The walk over a \<open>Map\<close> is live, but the
  body deletes only the entry it is visiting, so the entries visited are those present
  when the walk starts. The inner walk carries the room object, whether the room has
  been deleted from the table, and the emissions so far.
\<close>

fun disconnect_members ::
  "adapter \<Rightarrow> socket_id \<Rightarrow> room_id \<Rightarrow> (string \<times> RoomMember) list
     \<Rightarrow> RoomState \<times> bool \<times> emission list \<Rightarrow> RoomState \<times> bool \<times> emission list" where
  "disconnect_members A s roomId [] acc = acc"
| "disconnect_members A s roomId ((userId, user) # rest) (room, deleted, out) =
     (if userId = s then
        (let room1 = room\<lparr>members := Map_delete (members room) userId\<rparr>;
             out1 = out @ [emit A (ToRoomExceptSender roomId s) (MemberLeft user)];
             out2 = (if Map_size (members room1) > 0
                     then out1 @ [emit A (ToRoom roomId)
                                    (RoomStateEv (Map_values (members room1)))]
                     else out1);
             deleted2 = (if Map_size (members room1) = 0 then True else deleted)
         in disconnect_members A s roomId rest (room1, deleted2, out2))
      else disconnect_members A s roomId rest (room, deleted, out))"

fun disconnect_rooms ::
  "adapter \<Rightarrow> socket_id \<Rightarrow> (room_id \<times> RoomState) list
     \<Rightarrow> (room_id, RoomState) js_map \<times> emission list
     \<Rightarrow> (room_id, RoomState) js_map \<times> emission list" where
  "disconnect_rooms A s [] acc = acc"
| "disconnect_rooms A s ((roomId, room) # rest) (rs, out) =
     (case disconnect_members A s roomId (members room) (room, False, out) of
        (room', deleted, out') \<Rightarrow>
          disconnect_rooms A s rest
            (if deleted then Map_delete rs roomId else Map_set rs roomId room', out'))"

definition disconnect :: "server \<Rightarrow> socket_id \<Rightarrow> server \<times> emission list" where
  "disconnect \<sigma> s =
     (case disconnect_rooms (adapter \<sigma>) s (rooms \<sigma>) (rooms \<sigma>, []) of
        (rs, out) \<Rightarrow> (\<lparr>rooms = rs, adapter = adapter \<sigma>\<rparr>, out))"

subsection \<open>The dispatcher\<close>

datatype event =
    JoinRoom room_id RoomMember
  | LeaveRoom room_id RoomMember
  | SyncUrl room_id string "real option"
  | VideoStateChange room_id bool real
  | RequestVideoState room_id
  | ChatMessage room_id string RoomMember
  | Disconnect

text \<open>
  One inbound event of socket \<open>s\<close>. Socket.IO has taken a closing socket out of all its
  rooms when the disconnect handler runs.
\<close>

fun handle ::
  "url_parser \<Rightarrow> string \<Rightarrow> server \<Rightarrow> socket_id \<Rightarrow> event
     \<Rightarrow> error + server \<times> emission list" where
  "handle parse now \<sigma> s (JoinRoom r u) = join_room \<sigma> s r u"
| "handle parse now \<sigma> s (LeaveRoom r u) = Inr (leave_room \<sigma> s r u)"
| "handle parse now \<sigma> s (SyncUrl r u ts) = Inr (sync_url parse \<sigma> s r u ts)"
| "handle parse now \<sigma> s (VideoStateChange r p t) = Inr (video_state_change \<sigma> s r p t)"
| "handle parse now \<sigma> s (RequestVideoState r) = Inr (request_video_state \<sigma> s r)"
| "handle parse now \<sigma> s (ChatMessage r m u) = Inr (chat_message now \<sigma> s r m u)"
| "handle parse now \<sigma> s Disconnect =
     Inr (disconnect (\<sigma>\<lparr>adapter := leaveAll (adapter \<sigma>) s\<rparr>) s)"

text \<open>
  A run of the server: the events in the order they are handled, each with its socket
  and the clock reading at that moment. An uncaught error ends the run.
\<close>

fun run ::
  "url_parser \<Rightarrow> server \<Rightarrow> (socket_id \<times> string \<times> event) list
     \<Rightarrow> error + server \<times> emission list" where
  "run parse \<sigma> [] = Inr (\<sigma>, [])"
| "run parse \<sigma> ((s, now, ev) # rest) =
     (case handle parse now \<sigma> s ev of
        Inl e \<Rightarrow> Inl e
      | Inr (\<sigma>', out) \<Rightarrow>
          (case run parse \<sigma>' rest of
             Inl e \<Rightarrow> Inl e
           | Inr (\<sigma>'', out') \<Rightarrow> Inr (\<sigma>'', out @ out')))"

subsection \<open>Predicates used in the claims\<close>

text \<open>The member table of a room id: empty when the room has no state.\<close>

definition membership :: "server \<Rightarrow> room_id \<Rightarrow> (string, RoomMember) js_map" where
  "membership \<sigma> r = (case Map_get (rooms \<sigma>) r of None \<Rightarrow> [] | Some room \<Rightarrow> members room)"

text \<open>The keys of a \<open>Map\<close> are unique: in the room table and in every member table.\<close>

definition Map_ok :: "('k, 'v) js_map \<Rightarrow> bool" where
  "Map_ok m = distinct (map fst m)"

definition server_ok :: "server \<Rightarrow> bool" where
  "server_ok \<sigma> = (Map_ok (rooms \<sigma>) \<and> list_all (\<lambda>p. Map_ok (members (snd p))) (rooms \<sigma>))"

definition rooms_nonempty :: "(room_id, RoomState) js_map \<Rightarrow> bool" where
  "rooms_nonempty rs = list_all (\<lambda>p. members (snd p) \<noteq> []) rs"

subsection \<open>Sample values\<close>

text \<open>
  Three members whose ids are account ids, as the client sends them, and the state after
  the first two have joined room \<open>abc\<close> on the sockets \<open>s1\<close> and \<open>s2\<close>.
\<close>

definition alice :: RoomMember where
  "alice = \<lparr>m_id = ''u1'', m_name = ''A'', m_image = None\<rparr>"

definition bob :: RoomMember where
  "bob = \<lparr>m_id = ''u2'', m_name = ''B'', m_image = None\<rparr>"

definition carol :: RoomMember where
  "carol = \<lparr>m_id = ''u3'', m_name = ''C'', m_image = None\<rparr>"

definition room_abc :: server where
  "room_abc =
     \<lparr>rooms = [(''abc'', \<lparr>members = [(''u1'', alice), (''u2'', bob)], videoState = None\<rparr>)],
      adapter = [(''s1'', ''abc''), (''s2'', ''abc'')]\<rparr>"

text \<open>
  What a member-left emission of socket \<open>s\<close> looks like: sent with
  \<open>socket.to(room)\<close>, so to the sockets of the room other than \<open>s\<close>.
\<close>

definition left_ok :: "adapter \<Rightarrow> socket_id \<Rightarrow> emission \<Rightarrow> bool" where
  "left_ok A s e =
     (case payload e of
        MemberLeft m \<Rightarrow>
          (case target e of
             ToRoomExceptSender r s' \<Rightarrow> s' = s \<and> receivers e = recipients A (target e)
           | _ \<Rightarrow> False)
      | _ \<Rightarrow> True)"

text \<open>The events that remove a member: leave-room and disconnect.\<close>

fun is_removal :: "event \<Rightarrow> bool" where
  "is_removal (LeaveRoom r u) = True"
| "is_removal Disconnect = True"
| "is_removal ev = False"

text \<open>
  The disconnect handler on one room whose member keys are unique: the room after the
  walk (\<open>None\<close> when it has been deleted) and the emissions of the walk.
\<close>

definition after_disconnect :: "socket_id \<Rightarrow> RoomState \<Rightarrow> RoomState option" where
  "after_disconnect s room =
     (if Map_has (members room) s
      then (if Map_delete (members room) s = [] then None
            else Some (room\<lparr>members := Map_delete (members room) s\<rparr>))
      else Some room)"

definition room_emissions :: "adapter \<Rightarrow> socket_id \<Rightarrow> room_id \<times> RoomState \<Rightarrow> emission list" where
  "room_emissions A s p =
     (case Map_get (members (snd p)) s of
        None \<Rightarrow> []
      | Some user \<Rightarrow>
          emit A (ToRoomExceptSender (fst p) s) (MemberLeft user)
          # (if Map_delete (members (snd p)) s \<noteq> []
             then [emit A (ToRoom (fst p))
                     (RoomStateEv (Map_values (Map_delete (members (snd p)) s)))]
             else []))"

text \<open>
  A state in which the member ids are the socket ids: the only members that the
  disconnect handler finds.
\<close>

definition dave :: RoomMember where
  "dave = \<lparr>m_id = ''s1'', m_name = ''D'', m_image = None\<rparr>"

definition erin :: RoomMember where
  "erin = \<lparr>m_id = ''s2'', m_name = ''E'', m_image = None\<rparr>"

definition room_xyz :: server where
  "room_xyz =
     \<lparr>rooms = [(''xyz'', \<lparr>members = [(''s1'', dave), (''s2'', erin)], videoState = None\<rparr>)],
      adapter = [(''s1'', ''xyz''), (''s2'', ''xyz'')]\<rparr>"

section \<open>Facts about the containers\<close>

lemma Map_get_set_same: "Map_get (Map_set m k v) k = Some v"
  by (induction m) auto

lemma Map_get_set_other: "k' \<noteq> k \<Longrightarrow> Map_get (Map_set m k v) k' = Map_get m k'"
  by (induction m) auto

lemma Map_get_set:
  "Map_get (Map_set m k v) k' = (if k' = k then Some v else Map_get m k')"
  by (simp add: Map_get_set_same Map_get_set_other)

lemma Map_get_delete_same: "Map_get (Map_delete m k) k = None"
  by (induction m) auto

lemma Map_get_delete_other: "k' \<noteq> k \<Longrightarrow> Map_get (Map_delete m k) k' = Map_get m k'"
  by (induction m) auto

lemma Map_get_delete:
  "Map_get (Map_delete m k) k' = (if k' = k then None else Map_get m k')"
  by (simp add: Map_get_delete_same Map_get_delete_other)

lemma Map_get_Some_mem: "Map_get m k = Some v \<Longrightarrow> (k, v) \<in> set m"
  by (induction m) (auto split: if_splits)

lemma Map_get_None_iff: "Map_get m k = None \<longleftrightarrow> k \<notin> set (map fst m)"
proof (induction m)
  case Nil
  then show ?case by simp
next
  case (Cons e m)
  then show ?case by (cases e) auto
qed

lemma Map_get_distinct_mem:
  "distinct (map fst m) \<Longrightarrow> (k, v) \<in> set m \<Longrightarrow> Map_get m k = Some v"
  by (induction m) (auto simp: rev_image_eqI)

lemma Map_set_mem: "(k, v) \<in> set (Map_set m k v)"
  by (induction m) auto

lemma Map_values_set_mem: "v \<in> set (Map_values (Map_set m k v))"
  using Map_set_mem [of k v m] by (force simp: Map_values_def)

lemma Map_delete_absent: "Map_get m k = None \<Longrightarrow> Map_delete m k = m"
  by (induction m) (auto split: if_splits)

lemma Map_set_same_value: "Map_get m k = Some v \<Longrightarrow> Map_set m k v = m"
  by (induction m) (auto split: if_splits)

lemma Map_set_set: "Map_set (Map_set m k v0) k v = Map_set m k v"
  by (induction m) auto

lemma Map_set_not_Nil: "Map_set m k v \<noteq> []"
  by (cases m) (auto split: if_splits)

lemma list_all_Map_set: "list_all P m \<Longrightarrow> P (k, v) \<Longrightarrow> list_all P (Map_set m k v)"
  by (induction m) auto

lemma list_all_Map_delete: "list_all P m \<Longrightarrow> list_all P (Map_delete m k)"
  by (induction m) auto

lemma list_all_Map_get: "list_all P m \<Longrightarrow> Map_get m k = Some v \<Longrightarrow> P (k, v)"
  by (induction m) (auto split: if_splits)

lemma keys_Map_set:
  "map fst (Map_set m k v) = (if k \<in> set (map fst m) then map fst m else map fst m @ [k])"
proof (induction m)
  case Nil
  then show ?case by simp
next
  case (Cons e m)
  then show ?case by (cases e) auto
qed

lemma Map_ok_set: "Map_ok m \<Longrightarrow> Map_ok (Map_set m k v)"
  by (simp add: Map_ok_def keys_Map_set)

lemma keys_Map_delete: "map fst (Map_delete m k) = filter (\<lambda>x. x \<noteq> k) (map fst m)"
  by (induction m) auto

lemma Map_ok_delete: "Map_ok m \<Longrightarrow> Map_ok (Map_delete m k)"
  by (simp add: Map_ok_def keys_Map_delete)

lemma Map_ok_room:
  "list_all (\<lambda>p. Map_ok (members (snd p))) m \<Longrightarrow> Map_get m k = Some room
   \<Longrightarrow> Map_ok (members room)"
  using list_all_Map_get [of "\<lambda>p. Map_ok (members (snd p))" m k room] by simp

lemma set_sockets_in: "set (sockets_in A r) = {c. (c, r) \<in> set A}"
  by (force simp: sockets_in_def)

lemma set_recipients_except:
  "set (recipients A (ToRoomExceptSender r s)) = {c. (c, r) \<in> set A \<and> c \<noteq> s}"
  by (auto simp: set_sockets_in)

section \<open>Facts about the handlers\<close>

subsection \<open>join-room never fails\<close>

lemma join_room_result:
  "join_room \<sigma> s roomId user =
     (let A = socket_join (adapter \<sigma>) s roomId;
          rs = (if \<not> Map_has (rooms \<sigma>) roomId
                then Map_set (rooms \<sigma>) roomId \<lparr>members = [], videoState = None\<rparr>
                else rooms \<sigma>);
          room = (case Map_get (rooms \<sigma>) roomId of
                    None \<Rightarrow> \<lparr>members = [], videoState = None\<rparr> | Some r \<Rightarrow> r);
          room' = room\<lparr>members := Map_set (members room) (m_id user) user\<rparr>
      in Inr (\<lparr>rooms = Map_set rs roomId room', adapter = A\<rparr>,
              [emit A (ToSocket s) (RoomStateEv (Map_values (members room'))),
               emit A (ToRoomExceptSender roomId s) (MemberJoined user)]))"
  by (auto simp: join_room_def Let_def Map_has_def Map_get_set_same split: option.splits)

subsection \<open>No room of the table is empty\<close>

lemma join_room_nonempty:
  assumes "rooms_nonempty (rooms \<sigma>)" and "join_room \<sigma> s r u = Inr (\<sigma>', out)"
  shows "rooms_nonempty (rooms \<sigma>')"
  using assms
  by (auto simp: join_room_result Let_def rooms_nonempty_def Map_set_set Map_set_not_Nil
        intro!: list_all_Map_set)

lemma leave_room_nonempty:
  assumes "rooms_nonempty (rooms \<sigma>)"
  shows "rooms_nonempty (rooms (fst (leave_room \<sigma> s r u)))"
  using assms
  by (auto simp: leave_room_def Let_def rooms_nonempty_def Map_size_def
        intro!: list_all_Map_set list_all_Map_delete split: option.splits)

lemma sync_url_nonempty:
  assumes "rooms_nonempty (rooms \<sigma>)"
  shows "rooms_nonempty (rooms (fst (sync_url parse \<sigma> s r u ts)))"
  using assms
  by (auto simp: sync_url_def Let_def rooms_nonempty_def
        intro!: list_all_Map_set dest: list_all_Map_get split: option.splits)

lemma video_state_change_nonempty:
  assumes "rooms_nonempty (rooms \<sigma>)"
  shows "rooms_nonempty (rooms (fst (video_state_change \<sigma> s r p t)))"
  using assms
  by (auto simp: video_state_change_def Let_def rooms_nonempty_def
        intro!: list_all_Map_set dest: list_all_Map_get split: option.splits)

lemma request_video_state_rooms: "fst (request_video_state \<sigma> s r) = \<sigma>"
  by (simp add: request_video_state_def split: option.splits)

lemma disconnect_members_nonempty:
  "disconnect_members A s r ents (room, d, out) = (room', d', out')
   \<Longrightarrow> members room \<noteq> [] \<or> d \<Longrightarrow> members room' \<noteq> [] \<or> d'"
proof (induction ents arbitrary: room d out)
  case Nil
  then show ?case by simp
next
  case (Cons e ents)
  obtain userId user where e: "e = (userId, user)" by (cases e)
  show ?case
  proof (cases "userId = s")
    case True
    with Cons.prems e show ?thesis
      by (auto simp: Let_def Map_size_def dest!: Cons.IH split: if_splits)
  next
    case False
    with Cons.prems e show ?thesis
      by (auto dest!: Cons.IH)
  qed
qed

lemma disconnect_rooms_nonempty:
  "rooms_nonempty rs \<Longrightarrow> rooms_nonempty todo
   \<Longrightarrow> disconnect_rooms A s todo (rs, out) = (rs', out') \<Longrightarrow> rooms_nonempty rs'"
proof (induction todo arbitrary: rs out)
  case Nil
  then show ?case by simp
next
  case (Cons e todo)
  obtain roomId room where e: "e = (roomId, room)" by (cases e)
  obtain room1 d1 out1 where
    inner: "disconnect_members A s roomId (members room) (room, False, out) = (room1, d1, out1)"
    by (cases "disconnect_members A s roomId (members room) (room, False, out)")
  from Cons.prems(2) e have ne: "members room \<noteq> []" and todo: "rooms_nonempty todo"
    by (simp_all add: rooms_nonempty_def)
  from disconnect_members_nonempty [OF inner] ne have r1: "members room1 \<noteq> [] \<or> d1"
    by simp
  let ?rs1 = "if d1 then Map_delete rs roomId else Map_set rs roomId room1"
  have "rooms_nonempty ?rs1"
    using Cons.prems(1) r1
    by (auto simp: rooms_nonempty_def intro!: list_all_Map_set list_all_Map_delete)
  moreover have "disconnect_rooms A s todo (?rs1, out1) = (rs', out')"
    using Cons.prems(3) e inner by simp
  ultimately show ?case using Cons.IH todo by blast
qed

lemma disconnect_nonempty:
  assumes "rooms_nonempty (rooms \<sigma>)"
  shows "rooms_nonempty (rooms (fst (disconnect \<sigma> s)))"
proof -
  obtain rs out where
    eq: "disconnect_rooms (adapter \<sigma>) s (rooms \<sigma>) (rooms \<sigma>, []) = (rs, out)"
    by (cases "disconnect_rooms (adapter \<sigma>) s (rooms \<sigma>) (rooms \<sigma>, [])")
  from disconnect_rooms_nonempty [OF assms assms eq] eq show ?thesis
    by (simp add: disconnect_def)
qed

lemma handle_nonempty:
  assumes "rooms_nonempty (rooms \<sigma>)"
  shows "\<exists>\<sigma>' out. handle parse now \<sigma> s ev = Inr (\<sigma>', out) \<and> rooms_nonempty (rooms \<sigma>')"
proof (cases ev)
  case (JoinRoom r u)
  obtain \<sigma>' out where eq: "join_room \<sigma> s r u = Inr (\<sigma>', out)"
    by (simp add: join_room_result Let_def)
  with join_room_nonempty [OF assms eq] JoinRoom show ?thesis by simp
next
  case (LeaveRoom r u)
  with leave_room_nonempty [OF assms, of s r u] show ?thesis
    by (cases "leave_room \<sigma> s r u") simp
next
  case (SyncUrl r u ts)
  with sync_url_nonempty [OF assms, of parse s r u ts] show ?thesis
    by (cases "sync_url parse \<sigma> s r u ts") simp
next
  case (VideoStateChange r p t)
  with video_state_change_nonempty [OF assms, of s r p t] show ?thesis
    by (cases "video_state_change \<sigma> s r p t") simp
next
  case (RequestVideoState r)
  with request_video_state_rooms [of \<sigma> s r] assms show ?thesis
    by (cases "request_video_state \<sigma> s r") simp
next
  case (ChatMessage r m u)
  with assms show ?thesis by (simp add: chat_message_def)
next
  case Disconnect
  have "rooms_nonempty (rooms (\<sigma>\<lparr>adapter := leaveAll (adapter \<sigma>) s\<rparr>))"
    using assms by simp
  from disconnect_nonempty [OF this, of s] Disconnect show ?thesis
    by (cases "disconnect (\<sigma>\<lparr>adapter := leaveAll (adapter \<sigma>) s\<rparr>) s") simp
qed

lemma run_nonempty:
  "rooms_nonempty (rooms \<sigma>)
   \<Longrightarrow> \<exists>\<sigma>' out. run parse \<sigma> evs = Inr (\<sigma>', out) \<and> rooms_nonempty (rooms \<sigma>')"
proof (induction evs arbitrary: \<sigma>)
  case Nil
  then show ?case by simp
next
  case (Cons e evs)
  obtain s now ev where e: "e = (s, now, ev)" by (cases e)
  from handle_nonempty [OF Cons.prems, of parse now s ev]
  obtain \<sigma>1 out1 where h: "handle parse now \<sigma> s ev = Inr (\<sigma>1, out1)"
    and ne: "rooms_nonempty (rooms \<sigma>1)" by blast
  from Cons.IH [OF ne] obtain \<sigma>2 out2 where
    r: "run parse \<sigma>1 evs = Inr (\<sigma>2, out2)" and ne2: "rooms_nonempty (rooms \<sigma>2)" by blast
  show ?case using e h r ne2 by simp
qed

lemma nonempty_iff:
  assumes "rooms_nonempty (rooms \<sigma>)"
  shows "Map_has (rooms \<sigma>) r \<longleftrightarrow> membership \<sigma> r \<noteq> []"
proof (cases "Map_get (rooms \<sigma>) r")
  case None
  then show ?thesis by (simp add: Map_has_def membership_def)
next
  case (Some room)
  from list_all_Map_get [OF assms [unfolded rooms_nonempty_def] Some]
  show ?thesis using Some by (simp add: Map_has_def membership_def)
qed

subsection \<open>The keys of the tables stay unique\<close>

lemma disconnect_members_ok:
  "disconnect_members A s r ents (room, d, out) = (room', d', out')
   \<Longrightarrow> Map_ok (members room) \<Longrightarrow> Map_ok (members room')"
proof (induction ents arbitrary: room d out)
  case Nil
  then show ?case by simp
next
  case (Cons e ents)
  obtain userId user where e: "e = (userId, user)" by (cases e)
  show ?case
  proof (cases "userId = s")
    case True
    let ?room1 = "room\<lparr>members := Map_delete (members room) s\<rparr>"
    from Cons.prems(1) e True obtain d2 out2 where
      step: "disconnect_members A s r ents (?room1, d2, out2) = (room', d', out')"
      by (simp add: Let_def)
    have "Map_ok (members ?room1)" using Cons.prems(2) by (simp add: Map_ok_delete)
    from Cons.IH [OF step this] show ?thesis .
  next
    case False
    with Cons.prems e show ?thesis by (auto dest!: Cons.IH)
  qed
qed

lemma disconnect_rooms_ok:
  "disconnect_rooms A s todo (rs, out) = (rs', out')
   \<Longrightarrow> list_all (\<lambda>p. Map_ok (members (snd p))) todo
   \<Longrightarrow> Map_ok rs \<Longrightarrow> list_all (\<lambda>p. Map_ok (members (snd p))) rs
   \<Longrightarrow> Map_ok rs' \<and> list_all (\<lambda>p. Map_ok (members (snd p))) rs'"
proof (induction todo arbitrary: rs out)
  case Nil
  then show ?case by simp
next
  case (Cons e todo)
  obtain roomId room where e: "e = (roomId, room)" by (cases e)
  obtain room1 d1 out1 where
    inner: "disconnect_members A s roomId (members room) (room, False, out) = (room1, d1, out1)"
    by (cases "disconnect_members A s roomId (members room) (room, False, out)")
  from Cons.prems(2) e have okr: "Map_ok (members room)"
    and oks: "list_all (\<lambda>p. Map_ok (members (snd p))) todo" by simp_all
  from disconnect_members_ok [OF inner okr] have ok1: "Map_ok (members room1)" .
  let ?rs1 = "if d1 then Map_delete rs roomId else Map_set rs roomId room1"
  have a: "Map_ok ?rs1" using Cons.prems(3) by (simp add: Map_ok_set Map_ok_delete)
  have b: "list_all (\<lambda>p. Map_ok (members (snd p))) ?rs1"
    using Cons.prems(4) ok1 by (auto intro!: list_all_Map_set list_all_Map_delete)
  have "disconnect_rooms A s todo (?rs1, out1) = (rs', out')"
    using Cons.prems(1) e inner by simp
  from Cons.IH [OF this oks a b] show ?case .
qed

lemma server_ok_update:
  "server_ok \<sigma> \<Longrightarrow> Map_ok (members room')
   \<Longrightarrow> server_ok \<lparr>rooms = Map_set (rooms \<sigma>) r room', adapter = A\<rparr>"
  by (simp add: server_ok_def Map_ok_set list_all_Map_set)

lemma server_ok_delete:
  "server_ok \<sigma> \<Longrightarrow> server_ok \<lparr>rooms = Map_delete (rooms \<sigma>) r, adapter = A\<rparr>"
  by (simp add: server_ok_def Map_ok_delete list_all_Map_delete)

lemma server_ok_room:
  "server_ok \<sigma> \<Longrightarrow> Map_get (rooms \<sigma>) r = Some room \<Longrightarrow> Map_ok (members room)"
  by (auto simp: server_ok_def dest: Map_ok_room)

lemma server_ok_adapter: "server_ok \<sigma> \<Longrightarrow> server_ok \<lparr>rooms = rooms \<sigma>, adapter = A\<rparr>"
  by (simp add: server_ok_def)

lemma join_room_server_ok:
  assumes "server_ok \<sigma>" and "join_room \<sigma> s r u = Inr (\<sigma>', out)"
  shows "server_ok \<sigma>'"
proof -
  let ?room = "case Map_get (rooms \<sigma>) r of
                 None \<Rightarrow> \<lparr>members = [], videoState = None\<rparr> | Some x \<Rightarrow> x"
  have "Map_ok (members ?room)"
    using server_ok_room [OF assms(1), of r]
    by (simp add: Map_ok_def split: option.splits)
  then have "Map_ok (members (?room\<lparr>members := Map_set (members ?room) (m_id u) u\<rparr>))"
    by (simp add: Map_ok_set)
  from server_ok_update [OF assms(1) this, of r "socket_join (adapter \<sigma>) s r"] assms(2)
  show ?thesis
    by (simp add: join_room_result Let_def Map_set_set split: if_splits)
qed

lemma leave_room_server_ok:
  assumes "server_ok \<sigma>"
  shows "server_ok (fst (leave_room \<sigma> s r u))"
proof (cases "Map_get (rooms \<sigma>) r")
  case None
  then show ?thesis
    using server_ok_adapter [OF assms] by (simp add: leave_room_def Let_def)
next
  case (Some room)
  from server_ok_room [OF assms Some]
  have "Map_ok (members (room\<lparr>members := Map_delete (members room) (m_id u)\<rparr>))"
    by (simp add: Map_ok_delete)
  from server_ok_update [OF assms this] server_ok_delete [OF assms] Some
  show ?thesis by (simp add: leave_room_def Let_def)
qed

lemma sync_url_server_ok:
  assumes "server_ok \<sigma>"
  shows "server_ok (fst (sync_url parse \<sigma> s r u ts))"
proof (cases "Map_get (rooms \<sigma>) r")
  case None
  then show ?thesis
    using server_ok_adapter [OF assms] by (simp add: sync_url_def Let_def)
next
  case (Some room)
  from server_ok_room [OF assms Some]
  have "Map_ok (members (room\<lparr>videoState := v\<rparr>))" for v by simp
  from server_ok_update [OF assms this] Some
  show ?thesis by (simp add: sync_url_def Let_def)
qed

lemma video_state_change_server_ok:
  assumes "server_ok \<sigma>"
  shows "server_ok (fst (video_state_change \<sigma> s r p t))"
proof (cases "Map_get (rooms \<sigma>) r")
  case None
  then show ?thesis
    using server_ok_adapter [OF assms] by (simp add: video_state_change_def Let_def)
next
  case (Some room)
  from server_ok_room [OF assms Some]
  have "Map_ok (members (room\<lparr>videoState := v\<rparr>))" for v by simp
  from server_ok_update [OF assms this] server_ok_adapter [OF assms] Some
  show ?thesis by (simp add: video_state_change_def Let_def split: option.splits)
qed

lemma disconnect_server_ok:
  assumes "server_ok \<sigma>"
  shows "server_ok (fst (disconnect \<sigma> s))"
proof -
  obtain rs out0 where
    eq: "disconnect_rooms (adapter \<sigma>) s (rooms \<sigma>) (rooms \<sigma>, []) = (rs, out0)"
    by (cases "disconnect_rooms (adapter \<sigma>) s (rooms \<sigma>) (rooms \<sigma>, [])")
  from assms have "Map_ok (rooms \<sigma>)"
    and "list_all (\<lambda>p. Map_ok (members (snd p))) (rooms \<sigma>)"
    by (simp_all add: server_ok_def)
  from disconnect_rooms_ok [OF eq this(2) this(1) this(2)] eq show ?thesis
    by (simp add: disconnect_def server_ok_def)
qed

lemma handle_server_ok:
  assumes "server_ok \<sigma>" and "handle parse now \<sigma> s ev = Inr (\<sigma>', out)"
  shows "server_ok \<sigma>'"
proof (cases ev)
  case (JoinRoom r u)
  with assms join_room_server_ok show ?thesis by simp
next
  case (LeaveRoom r u)
  with assms(2) leave_room_server_ok [OF assms(1), of s r u] show ?thesis by auto
next
  case (SyncUrl r u ts)
  with assms(2) sync_url_server_ok [OF assms(1), of parse s r u ts] show ?thesis by auto
next
  case (VideoStateChange r p t)
  with assms(2) video_state_change_server_ok [OF assms(1), of s r p t] show ?thesis by auto
next
  case (RequestVideoState r)
  with assms show ?thesis
    by (auto simp: request_video_state_def split: option.splits)
next
  case (ChatMessage r m u)
  with assms show ?thesis by (auto simp: chat_message_def)
next
  case Disconnect
  have "server_ok (\<sigma>\<lparr>adapter := leaveAll (adapter \<sigma>) s\<rparr>)"
    using assms(1) by (simp add: server_ok_def)
  from disconnect_server_ok [OF this, of s] assms(2) Disconnect show ?thesis by auto
qed

lemma run_server_ok:
  "server_ok \<sigma> \<Longrightarrow> run parse \<sigma> evs = Inr (\<sigma>', out) \<Longrightarrow> server_ok \<sigma>'"
proof (induction evs arbitrary: \<sigma> out)
  case Nil
  then show ?case by simp
next
  case (Cons e evs)
  obtain s now ev where e: "e = (s, now, ev)" by (cases e)
  from Cons.prems(2) e obtain \<sigma>1 out1 \<sigma>2 out2 where
    h: "handle parse now \<sigma> s ev = Inr (\<sigma>1, out1)"
    and r: "run parse \<sigma>1 evs = Inr (\<sigma>2, out2)" and s2: "\<sigma>' = \<sigma>2"
    by (auto split: sum.splits)
  from handle_server_ok [OF Cons.prems(1) h] have "server_ok \<sigma>1" .
  from Cons.IH [OF this, of out2] r s2 show ?case by simp
qed

lemma reachable_server_ok:
  "run parse init_server evs = Inr (\<sigma>, out) \<Longrightarrow> server_ok \<sigma>"
  by (rule run_server_ok [of init_server]) (simp_all add: server_ok_def init_server_def Map_ok_def)

subsection \<open>The disconnect handler on tables with unique keys\<close>

lemma disconnect_members_distinct:
  "distinct (map fst ents) \<Longrightarrow>
   disconnect_members A s r ents (room, d, out) =
     (case Map_get ents s of
        None \<Rightarrow> (room, d, out)
      | Some user \<Rightarrow>
          (room\<lparr>members := Map_delete (members room) s\<rparr>,
           (if Map_delete (members room) s = [] then True else d),
           out @ emit A (ToRoomExceptSender r s) (MemberLeft user)
                 # (if Map_delete (members room) s \<noteq> []
                    then [emit A (ToRoom r)
                            (RoomStateEv (Map_values (Map_delete (members room) s)))]
                    else [])))"
proof (induction ents arbitrary: room d out)
  case Nil
  then show ?case by simp
next
  case (Cons e ents)
  obtain userId user where e: "e = (userId, user)" by (cases e)
  from Cons.prems e have dist: "distinct (map fst ents)" and fresh: "userId \<notin> set (map fst ents)"
    by simp_all
  show ?case
  proof (cases "userId = s")
    case True
    with fresh have none: "Map_get ents s = None" by (simp add: Map_get_None_iff)
    show ?thesis
      using e True none Cons.IH [OF dist]
      by (simp add: Let_def Map_size_def)
  next
    case False
    then show ?thesis using e Cons.IH [OF dist] by simp
  qed
qed

lemma disconnect_members_room:
  assumes "Map_ok (members room)"
  shows "disconnect_members A s r (members room) (room, False, out) =
           (case after_disconnect s room of None \<Rightarrow> room\<lparr>members := []\<rparr> | Some room' \<Rightarrow> room',
            after_disconnect s room = None,
            out @ room_emissions A s (r, room))"
proof (cases "Map_get (members room) s")
  case None
  then show ?thesis
    using disconnect_members_distinct [OF assms [unfolded Map_ok_def], of A s r room False out]
    by (simp add: after_disconnect_def room_emissions_def Map_has_def)
next
  case (Some user)
  then show ?thesis
    using disconnect_members_distinct [OF assms [unfolded Map_ok_def], of A s r room False out]
    by (simp add: after_disconnect_def room_emissions_def Map_has_def)
qed

lemma disconnect_rooms_step:
  assumes "Map_ok (members room)"
  shows "disconnect_rooms A s ((r, room) # todo) (rs, out) =
           disconnect_rooms A s todo
             (case after_disconnect s room of
                None \<Rightarrow> Map_delete rs r | Some room' \<Rightarrow> Map_set rs r room',
              out @ room_emissions A s (r, room))"
  by (simp add: disconnect_members_room [OF assms] split: option.splits)

lemma disconnect_rooms_lookup:
  "distinct (map fst todo) \<Longrightarrow> list_all (\<lambda>p. Map_ok (members (snd p))) todo
   \<Longrightarrow> Map_get (fst (disconnect_rooms A s todo (rs, out))) r =
         (case Map_get todo r of
            None \<Rightarrow> Map_get rs r
          | Some room \<Rightarrow> after_disconnect s room)"
proof (induction todo arbitrary: rs out)
  case Nil
  then show ?case by simp
next
  case (Cons e todo)
  obtain k room where e: "e = (k, room)" by (cases e)
  from Cons.prems e have ok: "Map_ok (members room)"
    and dist: "distinct (map fst todo)" and fresh: "k \<notin> set (map fst todo)"
    and oks: "list_all (\<lambda>p. Map_ok (members (snd p))) todo"
    by simp_all
  from fresh have none: "Map_get todo k = None" by (simp add: Map_get_None_iff)
  show ?case
  proof (cases "r = k")
    case True
    have "Map_get (fst (disconnect_rooms A s todo (rs1, out1))) k = Map_get rs1 k"
      for rs1 out1
      using Cons.IH [OF dist oks, of rs1 out1] none True by simp
    with none True show ?thesis
      unfolding e disconnect_rooms_step [OF ok]
      by (simp add: Map_get_set Map_get_delete split: option.splits)
  next
    case False
    then show ?thesis
      unfolding e disconnect_rooms_step [OF ok]
      by (simp add: Cons.IH [OF dist oks] Map_get_set Map_get_delete split: option.splits)
  qed
qed

lemma disconnect_rooms_out:
  "list_all (\<lambda>p. Map_ok (members (snd p))) todo
   \<Longrightarrow> snd (disconnect_rooms A s todo (rs, out)) = out @ concat (map (room_emissions A s) todo)"
proof (induction todo arbitrary: rs out)
  case Nil
  then show ?case by simp
next
  case (Cons e todo)
  obtain k room where e: "e = (k, room)" by (cases e)
  from Cons.prems e have ok: "Map_ok (members room)"
    and oks: "list_all (\<lambda>p. Map_ok (members (snd p))) todo"
    by simp_all
  show ?case
    unfolding e disconnect_rooms_step [OF ok]
    by (simp add: Cons.IH [OF oks])
qed

lemma disconnect_adapter: "adapter (fst (disconnect \<sigma> s)) = adapter \<sigma>"
  by (simp add: disconnect_def split: prod.splits)

lemma disconnect_membership:
  assumes "server_ok \<sigma>"
  shows "membership (fst (disconnect \<sigma> s)) r =
           (if Map_has (membership \<sigma> r) s then Map_delete (membership \<sigma> r) s
            else membership \<sigma> r)"
proof -
  from assms have dist: "distinct (map fst (rooms \<sigma>))"
    and oks: "list_all (\<lambda>p. Map_ok (members (snd p))) (rooms \<sigma>)"
    by (simp_all add: server_ok_def Map_ok_def)
  have "rooms (fst (disconnect \<sigma> s))
          = fst (disconnect_rooms (adapter \<sigma>) s (rooms \<sigma>) (rooms \<sigma>, []))"
    by (simp add: disconnect_def split: prod.splits)
  then show ?thesis
    using disconnect_rooms_lookup [OF dist oks, of "adapter \<sigma>" s "rooms \<sigma>" "[]" r]
    by (auto simp: membership_def after_disconnect_def Map_has_def split: option.splits)
qed

lemma disconnect_out:
  assumes "server_ok \<sigma>"
  shows "snd (disconnect \<sigma> s) = concat (map (room_emissions (adapter \<sigma>) s) (rooms \<sigma>))"
proof -
  from assms have oks: "list_all (\<lambda>p. Map_ok (members (snd p))) (rooms \<sigma>)"
    by (simp add: server_ok_def)
  have "snd (disconnect \<sigma> s)
          = snd (disconnect_rooms (adapter \<sigma>) s (rooms \<sigma>) (rooms \<sigma>, []))"
    by (simp add: disconnect_def split: prod.splits)
  with disconnect_rooms_out [OF oks, of "adapter \<sigma>" s "rooms \<sigma>" "[]"] show ?thesis by simp
qed

lemma disconnect_unknown_socket:
  assumes ok: "server_ok \<sigma>" and none: "\<forall>r. \<not> Map_has (membership \<sigma> r) s"
  shows "snd (disconnect \<sigma> s) = [] \<and> (\<forall>r. membership (fst (disconnect \<sigma> s)) r = membership \<sigma> r)"
proof -
  from ok have dist: "distinct (map fst (rooms \<sigma>))"
    by (simp add: server_ok_def Map_ok_def)
  have "room_emissions (adapter \<sigma>) s p = []" if p: "p \<in> set (rooms \<sigma>)" for p
  proof -
    obtain k room where pk: "p = (k, room)" by (cases p)
    with p have "Map_get (rooms \<sigma>) k = Some room"
      using Map_get_distinct_mem [OF dist] by simp
    then have "membership \<sigma> k = members room" by (simp add: membership_def)
    with none have "Map_get (members room) s = None"
      by (metis Map_has_def)
    with pk show ?thesis by (simp add: room_emissions_def)
  qed
  then have "concat (map (room_emissions (adapter \<sigma>) s) (rooms \<sigma>)) = []"
    by simp
  then show ?thesis
    using disconnect_out [OF ok, of s] disconnect_membership [OF ok, of s] none by simp
qed

subsection \<open>Member-left emissions\<close>

lemma left_ok_emit_left: "left_ok A s (emit A (ToRoomExceptSender r s) (MemberLeft u))"
  by (simp add: left_ok_def emit_def)

lemma left_ok_emit_snapshot: "left_ok A s (emit A t (RoomStateEv ms))"
  by (simp add: left_ok_def emit_def)

lemma disconnect_members_left_ok:
  "disconnect_members A s r ents (room, d, out) = (room', d', out')
   \<Longrightarrow> list_all (left_ok A s) out \<Longrightarrow> list_all (left_ok A s) out'"
proof (induction ents arbitrary: room d out)
  case Nil
  then show ?case by simp
next
  case (Cons e ents)
  obtain userId user where e: "e = (userId, user)" by (cases e)
  show ?case
  proof (cases "userId = s")
    case True
    let ?room1 = "room\<lparr>members := Map_delete (members room) s\<rparr>"
    let ?out1 = "out @ [emit A (ToRoomExceptSender r s) (MemberLeft user)]"
    let ?out2 = "if Map_size (members ?room1) > 0
                 then ?out1 @ [emit A (ToRoom r) (RoomStateEv (Map_values (members ?room1)))]
                 else ?out1"
    let ?d2 = "if Map_size (members ?room1) = 0 then True else d"
    have step: "disconnect_members A s r ents (?room1, ?d2, ?out2) = (room', d', out')"
      using Cons.prems(1) e True by (simp add: Let_def)
    have "list_all (left_ok A s) ?out2"
      using Cons.prems(2) by (simp add: left_ok_emit_left left_ok_emit_snapshot)
    with Cons.IH [OF step] show ?thesis by blast
  next
    case False
    with Cons.prems e show ?thesis
      by (auto dest!: Cons.IH)
  qed
qed

lemma disconnect_rooms_left_ok:
  "disconnect_rooms A s todo (rs, out) = (rs', out')
   \<Longrightarrow> list_all (left_ok A s) out \<Longrightarrow> list_all (left_ok A s) out'"
proof (induction todo arbitrary: rs out)
  case Nil
  then show ?case by simp
next
  case (Cons e todo)
  obtain roomId room where e: "e = (roomId, room)" by (cases e)
  obtain room1 d1 out1 where
    inner: "disconnect_members A s roomId (members room) (room, False, out) = (room1, d1, out1)"
    by (cases "disconnect_members A s roomId (members room) (room, False, out)")
  from disconnect_members_left_ok [OF inner Cons.prems(2)]
  have ok1: "list_all (left_ok A s) out1" .
  have "disconnect_rooms A s todo
          (if d1 then Map_delete rs roomId else Map_set rs roomId room1, out1) = (rs', out')"
    using Cons.prems(1) e inner by simp
  from Cons.IH [OF this ok1] show ?case .
qed

lemma handle_left_ok:
  assumes "handle parse now \<sigma> s ev = Inr (\<sigma>', out)"
  shows "list_all (left_ok (adapter \<sigma>') s) out"
proof (cases ev)
  case (JoinRoom r u)
  with assms show ?thesis
    by (auto simp: join_room_result Let_def left_ok_def emit_def)
next
  case (LeaveRoom r u)
  with assms show ?thesis
    by (auto simp: leave_room_def Let_def left_ok_def emit_def split: option.splits if_splits)
next
  case (SyncUrl r u ts)
  with assms show ?thesis
    by (auto simp: sync_url_def Let_def left_ok_def emit_def)
next
  case (VideoStateChange r p t)
  with assms show ?thesis
    by (auto simp: video_state_change_def Let_def left_ok_def emit_def)
next
  case (RequestVideoState r)
  with assms show ?thesis
    by (auto simp: request_video_state_def left_ok_def emit_def split: option.splits)
next
  case (ChatMessage r m u)
  with assms show ?thesis
    by (auto simp: chat_message_def left_ok_def emit_def)
next
  case Disconnect
  let ?A = "leaveAll (adapter \<sigma>) s"
  obtain rs out0 where
    eq: "disconnect_rooms ?A s (rooms \<sigma>) (rooms \<sigma>, []) = (rs, out0)"
    by (cases "disconnect_rooms ?A s (rooms \<sigma>) (rooms \<sigma>, [])")
  from disconnect_rooms_left_ok [OF eq] have "list_all (left_ok ?A s) out0" by simp
  with assms Disconnect eq show ?thesis
    by (auto simp: disconnect_def)
qed

lemma handle_member_left_removal:
  assumes "handle parse now \<sigma> s ev = Inr (\<sigma>', out)"
    and "e \<in> set out" and "payload e = MemberLeft m"
  shows "is_removal ev"
proof (cases ev)
  case (JoinRoom r u)
  with assms show ?thesis by (auto simp: join_room_result Let_def emit_def)
next
  case (SyncUrl r u ts)
  with assms show ?thesis by (auto simp: sync_url_def Let_def emit_def)
next
  case (VideoStateChange r p t)
  with assms show ?thesis by (auto simp: video_state_change_def Let_def emit_def)
next
  case (RequestVideoState r)
  with assms show ?thesis
    by (auto simp: request_video_state_def emit_def split: option.splits)
next
  case (ChatMessage r msg u)
  with assms show ?thesis by (auto simp: chat_message_def emit_def)
qed simp_all

subsection \<open>The sample states and URLs\<close>

lemma room_abc_reached:
  "run parseURL init_server
     [(''s1'', ''t1'', JoinRoom ''abc'' alice), (''s2'', ''t2'', JoinRoom ''abc'' bob)]
   = Inr (room_abc,
          [\<lparr>target = ToSocket ''s1'', receivers = [''s1''], payload = RoomStateEv [alice]\<rparr>,
           \<lparr>target = ToRoomExceptSender ''abc'' ''s1'', receivers = [],
              payload = MemberJoined alice\<rparr>,
           \<lparr>target = ToSocket ''s2'', receivers = [''s2''],
              payload = RoomStateEv [alice, bob]\<rparr>,
           \<lparr>target = ToRoomExceptSender ''abc'' ''s2'', receivers = [''s1''],
              payload = MemberJoined bob\<rparr>])"
  by (simp add: init_server_def room_abc_def join_room_def Let_def Map_has_def
        socket_join_def emit_def sockets_in_def Map_values_def alice_def bob_def)

lemma room_abc_ok: "server_ok room_abc"
  by (simp add: server_ok_def room_abc_def Map_ok_def)

lemma room_xyz_ok: "server_ok room_xyz"
  by (simp add: server_ok_def room_xyz_def Map_ok_def)

lemma room_abc_leave:
  "handle parseURL ''t'' room_abc ''s2'' (LeaveRoom ''abc'' bob) =
     Inr (\<lparr>rooms = [(''abc'', \<lparr>members = [(''u1'', alice)], videoState = None\<rparr>)],
           adapter = [(''s1'', ''abc'')]\<rparr>,
          [\<lparr>target = ToRoomExceptSender ''abc'' ''s2'', receivers = [''s1''],
            payload = MemberLeft bob\<rparr>,
           \<lparr>target = ToRoom ''abc'', receivers = [''s1''],
            payload = RoomStateEv [alice]\<rparr>])"
  by (simp add: room_abc_def leave_room_def socket_leave_def Let_def Map_size_def
        Map_values_def emit_def sockets_in_def alice_def bob_def)

lemma room_xyz_disconnect:
  "handle parseURL ''t'' room_xyz ''s2'' Disconnect =
     Inr (\<lparr>rooms = [(''xyz'', \<lparr>members = [(''s1'', dave)], videoState = None\<rparr>)],
           adapter = [(''s1'', ''xyz'')]\<rparr>,
          [\<lparr>target = ToRoomExceptSender ''xyz'' ''s2'', receivers = [''s1''],
            payload = MemberLeft erin\<rparr>,
           \<lparr>target = ToRoom ''xyz'', receivers = [''s1''],
            payload = RoomStateEv [dave]\<rparr>])"
  by (simp add: room_xyz_def disconnect_def leaveAll_def Let_def Map_size_def Map_values_def
        emit_def sockets_in_def)

lemma parse_watch_abc:
  "parseURL ''https://www.youtube.com/watch?v=abc'' =
     Some \<lparr>hostname = ''www.youtube.com'', pathname = ''/watch'',
           searchParams = [(''v'', ''abc'')]\<rparr>"
  by (simp add: parseURL_def after_scheme_def Let_def host_char_def path_char_def
        query_char_def plain_char_def parse_query_def parse_pair_def)

lemma parse_http_x:
  "parseURL ''http://x'' = Some \<lparr>hostname = ''x'', pathname = ''/'', searchParams = []\<rparr>"
  by (simp add: parseURL_def after_scheme_def Let_def host_char_def path_char_def
        query_char_def plain_char_def parse_query_def parse_pair_def)

lemma parse_watch_qv:
  "parseURL ''https://www.youtube.com/watch?v=?v=x'' =
     Some \<lparr>hostname = ''www.youtube.com'', pathname = ''/watch'',
           searchParams = [(''v'', ''?v=x'')]\<rparr>"
  by (simp add: parseURL_def after_scheme_def Let_def host_char_def path_char_def
        query_char_def plain_char_def parse_query_def parse_pair_def)

lemma parse_embed_qv:
  "parseURL ''https://www.youtube.com/embed/?v=x'' =
     Some \<lparr>hostname = ''www.youtube.com'', pathname = ''/embed/'',
           searchParams = [(''v'', ''x'')]\<rparr>"
  by (simp add: parseURL_def after_scheme_def Let_def host_char_def path_char_def
        query_char_def plain_char_def parse_query_def parse_pair_def)

lemma parse_youtu_be:
  "parseURL ''https://youtu.be/abc'' =
     Some \<lparr>hostname = ''youtu.be'', pathname = ''/abc'', searchParams = []\<rparr>"
  by (simp add: parseURL_def after_scheme_def Let_def host_char_def path_char_def
        query_char_def plain_char_def parse_query_def parse_pair_def)

lemma parse_embed_abc:
  "parseURL ''https://www.youtube.com/embed/abc'' =
     Some \<lparr>hostname = ''www.youtube.com'', pathname = ''/embed/abc'', searchParams = []\<rparr>"
  by (simp add: parseURL_def after_scheme_def Let_def host_char_def path_char_def
        query_char_def plain_char_def parse_query_def parse_pair_def)

lemma parse_not_a_url: "parseURL ''not a url'' = None"
  by (simp add: parseURL_def after_scheme_def)

lemma convertToEmbedUrl_fixed:
  "\<not> convertible parse u \<Longrightarrow> convertToEmbedUrl parse u = u"
  by (auto simp: convertible_def convertToEmbedUrl_def split: option.splits)

subsection \<open>The sample parser on plain video ids\<close>

lemma plain_char_not_delim:
  "plain_char c \<Longrightarrow> c \<noteq> CHR ''?'' \<and> c \<noteq> CHR ''#'' \<and> c \<noteq> CHR ''&'' \<and> c \<noteq> CHR ''/''"
  by (auto simp: plain_char_def)

lemma takeWhile_plain:
  "list_all plain_char w \<Longrightarrow> takeWhile (\<lambda>c. c \<noteq> CHR ''?'' \<and> c \<noteq> CHR ''#'') w = w"
  by (induction w) (auto dest: plain_char_not_delim)

lemma dropWhile_plain:
  "list_all plain_char w \<Longrightarrow> dropWhile (\<lambda>c. c \<noteq> CHR ''?'' \<and> c \<noteq> CHR ''#'') w = []"
  by (induction w) (auto dest: plain_char_not_delim)

lemma takeWhile_plain_hash:
  "list_all plain_char w \<Longrightarrow> takeWhile (\<lambda>c. c \<noteq> CHR ''#'') w = w"
  by (induction w) (auto dest: plain_char_not_delim)

lemma split_on_plain: "list_all plain_char w \<Longrightarrow> split_on CHR ''&'' w = [w]"
  by (induction w) (auto dest: plain_char_not_delim)

lemma plain_path: "list_all plain_char w \<Longrightarrow> list_all path_char w"
  by (induction w) (auto simp: path_char_def)

lemma plain_query: "list_all plain_char w \<Longrightarrow> list_all query_char w"
  by (induction w) (auto simp: query_char_def)

lemma parseURL_embed_plain:
  assumes "list_all plain_char vid"
  shows "parseURL (''https://www.youtube.com/embed/'' @ vid) =
           Some \<lparr>hostname = ''www.youtube.com'', pathname = ''/embed/'' @ vid,
                 searchParams = []\<rparr>"
  using assms
  by (simp add: parseURL_def after_scheme_def Let_def takeWhile_plain dropWhile_plain
        host_char_def path_char_def plain_char_def [of "CHR ''e''"] plain_char_def [of "CHR ''m''"]
        plain_char_def [of "CHR ''b''"] plain_char_def [of "CHR ''d''"] plain_path
        parse_query_def)

lemma parseURL_watch_plain:
  assumes "list_all plain_char vid"
  shows "parseURL (''https://www.youtube.com/watch?v='' @ vid) =
           Some \<lparr>hostname = ''www.youtube.com'', pathname = ''/watch'',
                 searchParams = [(''v'', vid)]\<rparr>"
  using assms
  by (simp add: parseURL_def after_scheme_def Let_def takeWhile_plain_hash split_on_plain
        host_char_def path_char_def query_char_def plain_char_def [of "CHR ''w''"]
        plain_char_def [of "CHR ''a''"] plain_char_def [of "CHR ''t''"]
        plain_char_def [of "CHR ''c''"] plain_char_def [of "CHR ''h''"]
        plain_char_def [of "CHR ''v''"] plain_query parse_query_def parse_pair_def)

lemma convertToEmbedUrl_plain_id:
  assumes "list_all plain_char vid" and "vid \<noteq> []"
  shows "convertToEmbedUrl parseURL (''https://www.youtube.com/watch?v='' @ vid)
           = ''https://www.youtube.com/embed/'' @ vid
         \<and> convertToEmbedUrl parseURL (''https://www.youtube.com/embed/'' @ vid)
           = ''https://www.youtube.com/embed/'' @ vid"
  unfolding convertToEmbedUrl_def parseURL_watch_plain [OF assms(1)]
    parseURL_embed_plain [OF assms(1)]
  using assms(2) by (simp add: watch_videoId_def searchParams_get_def)

section \<open>The claims\<close>

subsection \<open>C1: disconnect of one of two members\<close>

text \<open>
  C1 asks that the disconnect of one of the two members of a room sends one member-left
  to the other member and leaves a room of size 1. The handler looks for a member whose
  key is the id of the closing socket, while join-room stores members under the id the
  client sends (the account id). With \<open>alice\<close> on socket \<open>s1\<close> and \<open>bob\<close> on socket
  \<open>s2\<close> in room \<open>abc\<close> (the state after their two join-room events), the disconnect
  of \<open>s2\<close> emits nothing and the room keeps both members.
\<close>

theorem C1_disconnect_keeps_member:
  "run parseURL init_server
     [(''s1'', ''t1'', JoinRoom ''abc'' alice), (''s2'', ''t2'', JoinRoom ''abc'' bob)]
   = Inr (room_abc,
          [\<lparr>target = ToSocket ''s1'', receivers = [''s1''], payload = RoomStateEv [alice]\<rparr>,
           \<lparr>target = ToRoomExceptSender ''abc'' ''s1'', receivers = [],
              payload = MemberJoined alice\<rparr>,
           \<lparr>target = ToSocket ''s2'', receivers = [''s2''],
              payload = RoomStateEv [alice, bob]\<rparr>,
           \<lparr>target = ToRoomExceptSender ''abc'' ''s2'', receivers = [''s1''],
              payload = MemberJoined bob\<rparr>])
   \<and> Map_values (membership room_abc ''abc'') = [alice, bob]
   \<and> handle parseURL ''t3'' room_abc ''s2'' Disconnect =
       Inr (\<lparr>rooms = rooms room_abc, adapter = [(''s1'', ''abc'')]\<rparr>, [])"
proof -
  have vals: "Map_values (membership room_abc ''abc'') = [alice, bob]"
    by (simp add: room_abc_def membership_def Map_values_def)
  have disc: "handle parseURL ''t3'' room_abc ''s2'' Disconnect =
                Inr (\<lparr>rooms = rooms room_abc, adapter = [(''s1'', ''abc'')]\<rparr>, [])"
    by (simp add: room_abc_def disconnect_def leaveAll_def alice_def bob_def)
  show ?thesis using room_abc_reached vals disc by blast
qed

subsection \<open>C2: sync-url\<close>

text \<open>
  C2 as stated, with the raw url forwarded, fails on a YouTube watch link: the url sent
  to the rest of the room is the embed url.
\<close>

theorem C2_counterexample:
  "snd (sync_url parseURL room_abc ''s1'' ''abc'' ''https://www.youtube.com/watch?v=abc''
          (Some 0))
   = [\<lparr>target = ToRoomExceptSender ''abc'' ''s1'', receivers = [''s2''],
        payload = UrlChanged ''https://www.youtube.com/embed/abc'' 0\<rparr>]
   \<and> ''https://www.youtube.com/embed/abc'' \<noteq> ''https://www.youtube.com/watch?v=abc''"
  by (simp add: sync_url_def Let_def parse_watch_abc convertToEmbedUrl_def
        watch_videoId_def searchParams_get_def emit_def sockets_in_def room_abc_def)

text \<open>
  C2, amended. A sync-url event on room \<open>r\<close> emits exactly one url-changed event, to the
  sockets joined to \<open>r\<close> other than the sender; its url is \<open>convertToEmbedUrl\<close> of the
  reported url, which is the reported url itself unless that is a YouTube watch or
  youtu.be link, and its position is the reported position, 0 when none is reported.
\<close>

theorem C2_sync_url_forwards_embed_url:
  "snd (sync_url parse \<sigma> s r u ts) =
     [\<lparr>target = ToRoomExceptSender r s,
       receivers = recipients (adapter \<sigma>) (ToRoomExceptSender r s),
       payload = UrlChanged (convertToEmbedUrl parse u)
                   (case ts of None \<Rightarrow> 0 | Some t \<Rightarrow> t)\<rparr>]
   \<and> set (recipients (adapter \<sigma>) (ToRoomExceptSender r s))
       = {c. (c, r) \<in> set (adapter \<sigma>) \<and> c \<noteq> s}
   \<and> (\<not> convertible parse u \<longrightarrow> convertToEmbedUrl parse u = u)"
  by (simp add: sync_url_def Let_def emit_def set_recipients_except convertToEmbedUrl_fixed
        del: recipients.simps)

theorem C2_sync_url_forwards_embed_url_witness:
  "\<not> convertible parseURL ''http://x''
   \<and> snd (sync_url parseURL room_abc ''s1'' ''abc'' ''http://x'' (Some 0)) =
       [\<lparr>target = ToRoomExceptSender ''abc'' ''s1'', receivers = [''s2''],
         payload = UrlChanged ''http://x'' 0\<rparr>]"
proof -
  have nc: "\<not> convertible parseURL ''http://x''"
    by (simp add: convertible_def parse_http_x watch_videoId_def)
  have rc: "recipients (adapter room_abc) (ToRoomExceptSender ''abc'' ''s1'') = [''s2'']"
    by (simp add: room_abc_def sockets_in_def)
  show ?thesis
    using C2_sync_url_forwards_embed_url
            [of parseURL room_abc "''s1''" "''abc''" "''http://x''" "Some 0"] nc rc
    by simp
qed

subsection \<open>C3: video-state-change\<close>

text \<open>
  C3 as stated fails where the room has no video state: none is created.
\<close>

theorem C3_counterexample:
  "map_option videoState (Map_get (rooms room_abc) ''abc'') = Some None
   \<and> map_option videoState
       (Map_get (rooms (fst (video_state_change room_abc ''s1'' ''abc'' True 5))) ''abc'')
     = Some None"
  by (simp add: video_state_change_def room_abc_def)

text \<open>
  C3, amended. A video-state-change event on room \<open>r\<close> emits exactly one
  video-state-updated event with the reported flag and position, to the sockets joined
  to \<open>r\<close> other than the sender. In the table, a video state that exists in room \<open>r\<close>
  gets the reported flag and position and keeps its url; a room without a video state
  stays without one, and a room id without a state stays without one. No other room and
  no member table changes.
\<close>

theorem C3_video_state_change_updates_existing_only:
  "snd (video_state_change \<sigma> s r p t) =
     [\<lparr>target = ToRoomExceptSender r s,
       receivers = recipients (adapter \<sigma>) (ToRoomExceptSender r s),
       payload = VideoStateUpdated p t\<rparr>]
   \<and> set (recipients (adapter \<sigma>) (ToRoomExceptSender r s))
       = {c. (c, r) \<in> set (adapter \<sigma>) \<and> c \<noteq> s}
   \<and> map_option videoState (Map_get (rooms (fst (video_state_change \<sigma> s r p t))) r')
       = (if r' = r
          then map_option
                 (\<lambda>room. map_option (\<lambda>vs. vs\<lparr>isPlaying := p, timestamp := t\<rparr>)
                           (videoState room))
                 (Map_get (rooms \<sigma>) r)
          else map_option videoState (Map_get (rooms \<sigma>) r'))
   \<and> membership (fst (video_state_change \<sigma> s r p t)) r' = membership \<sigma> r'"
  by (auto simp: video_state_change_def Let_def emit_def set_recipients_except
        membership_def Map_get_set split: option.splits simp del: recipients.simps)

subsection \<open>C4: leave-room by a non-member\<close>

text \<open>
  C4 as stated fails when the room exists: member-left and the room-state snapshot are
  sent although the named member is not in the room.
\<close>

theorem C4_counterexample:
  "\<not> Map_has (membership room_abc ''abc'') (m_id carol)
   \<and> snd (leave_room room_abc ''s3'' ''abc'' carol) =
       [\<lparr>target = ToRoomExceptSender ''abc'' ''s3'', receivers = [''s1'', ''s2''],
         payload = MemberLeft carol\<rparr>,
        \<lparr>target = ToRoom ''abc'', receivers = [''s1'', ''s2''],
         payload = RoomStateEv [alice, bob]\<rparr>]"
  by (simp add: leave_room_def Let_def room_abc_def membership_def Map_has_def
        carol_def alice_def bob_def socket_leave_def emit_def sockets_in_def
        Map_size_def Map_values_def)

lemma leave_room_membership_absent:
  assumes "\<not> Map_has (membership \<sigma> r) (m_id u)"
  shows "membership (fst (leave_room \<sigma> s r u)) r' = membership \<sigma> r'"
proof (cases "Map_get (rooms \<sigma>) r")
  case None
  then show ?thesis by (simp add: leave_room_def Let_def membership_def)
next
  case (Some room)
  with assms have absent: "Map_get (members room) (m_id u) = None"
    by (simp add: membership_def Map_has_def)
  then have same: "Map_delete (members room) (m_id u) = members room"
    by (rule Map_delete_absent)
  show ?thesis
    using Some same
    by (auto simp: leave_room_def Let_def membership_def Map_size_def Map_get_set
          Map_get_delete)
qed

text \<open>
  C4, amended. A leave-room event naming a member id that is not in the named room's
  member table never fails and changes no member table. When the named room has no state
  the room table is unchanged and nothing is emitted.
\<close>

theorem C4_leave_by_non_member:
  assumes "\<not> Map_has (membership \<sigma> r) (m_id u)"
  shows "\<exists>\<sigma>' out. handle parse now \<sigma> s (LeaveRoom r u) = Inr (\<sigma>', out)
           \<and> (\<forall>r'. membership \<sigma>' r' = membership \<sigma> r')
           \<and> (\<not> Map_has (rooms \<sigma>) r \<longrightarrow> rooms \<sigma>' = rooms \<sigma> \<and> out = [])"
proof -
  obtain \<sigma>' out where eq: "leave_room \<sigma> s r u = (\<sigma>', out)"
    by (cases "leave_room \<sigma> s r u")
  have m: "\<forall>r'. membership \<sigma>' r' = membership \<sigma> r'"
    using leave_room_membership_absent [OF assms, of s] eq by simp
  have a: "\<not> Map_has (rooms \<sigma>) r \<longrightarrow> rooms \<sigma>' = rooms \<sigma> \<and> out = []"
    using eq by (auto simp: leave_room_def Let_def Map_has_def)
  show ?thesis using eq m a by simp
qed

theorem C4_leave_by_non_member_witness:
  "\<not> Map_has (membership init_server ''abc'') (m_id carol)
   \<and> \<not> Map_has (rooms init_server) ''abc''
   \<and> (\<exists>\<sigma>'. handle parseURL ''t'' init_server ''s3'' (LeaveRoom ''abc'' carol)
                = Inr (\<sigma>', [])
              \<and> rooms \<sigma>' = rooms init_server)
   \<and> \<not> Map_has (membership room_abc ''abc'') (m_id carol)
   \<and> (\<exists>\<sigma>' out. handle parseURL ''t'' room_abc ''s3'' (LeaveRoom ''abc'' carol)
                  = Inr (\<sigma>', out)
                \<and> membership \<sigma>' ''abc'' = membership room_abc ''abc'')"
proof -
  have h1: "\<not> Map_has (membership init_server ''abc'') (m_id carol)"
    by (simp add: membership_def init_server_def Map_has_def)
  have h2: "\<not> Map_has (membership room_abc ''abc'') (m_id carol)"
    by (simp add: membership_def room_abc_def Map_has_def carol_def)
  have h3: "\<not> Map_has (rooms init_server) ''abc''"
    by (simp add: init_server_def Map_has_def)
  have e1: "\<exists>\<sigma>'. handle parseURL ''t'' init_server ''s3'' (LeaveRoom ''abc'' carol)
                = Inr (\<sigma>', [])
              \<and> rooms \<sigma>' = rooms init_server"
    using C4_leave_by_non_member [OF h1, of parseURL "''t''" "''s3''"] h3 by auto
  have e2: "\<exists>\<sigma>' out. handle parseURL ''t'' room_abc ''s3'' (LeaveRoom ''abc'' carol)
                  = Inr (\<sigma>', out)
                \<and> membership \<sigma>' ''abc'' = membership room_abc ''abc''"
    using C4_leave_by_non_member [OF h2, of parseURL "''t''" "''s3''"] by auto
  show ?thesis using h1 h2 h3 e1 e2 by blast
qed

subsection \<open>C5: the snapshot of join-room\<close>

text \<open>
  C5. A join-room event never fails, and its first emission is the room-state snapshot,
  addressed to the joining socket alone; the snapshot is the list of the members stored
  in the room after the insertion, and the joining member is in it. The second emission
  is the member-joined notice to the rest of the room.
\<close>

theorem C5_join_snapshot_contains_joiner:
  "\<exists>\<sigma>' ms. join_room \<sigma> s roomId user =
       Inr (\<sigma>', [\<lparr>target = ToSocket s, receivers = [s], payload = RoomStateEv ms\<rparr>,
                 emit (adapter \<sigma>') (ToRoomExceptSender roomId s) (MemberJoined user)])
     \<and> ms = Map_values (membership \<sigma>' roomId)
     \<and> user \<in> set ms"
  by (simp add: join_room_result Let_def emit_def membership_def Map_get_set_same
        Map_values_set_mem)

subsection \<open>C6: a room is in the table exactly when it has members\<close>

text \<open>
  C6. Every run of the server from the empty table, over any events of any sockets,
  completes, and in the state it reaches a room id is in the room table if and only if
  its member table is not empty. Every prefix of a run is a run, so this holds after
  every event.
\<close>

theorem C6_room_present_iff_nonempty:
  "\<exists>\<sigma> out. run parse init_server evs = Inr (\<sigma>, out)
     \<and> (\<forall>r. Map_has (rooms \<sigma>) r \<longleftrightarrow> membership \<sigma> r \<noteq> [])"
proof -
  have "rooms_nonempty (rooms init_server)"
    by (simp add: rooms_nonempty_def init_server_def)
  from run_nonempty [OF this, of parse evs] obtain \<sigma> out where
    r: "run parse init_server evs = Inr (\<sigma>, out)" and ne: "rooms_nonempty (rooms \<sigma>)"
    by blast
  show ?thesis using r nonempty_iff [OF ne] by simp
qed

subsection \<open>C7: the snapshot after a removal\<close>

lemma leave_room_snapshot:
  assumes "leave_room \<sigma> s r0 u = (\<sigma>', out)"
    and "membership \<sigma>' r \<noteq> membership \<sigma> r" and "membership \<sigma>' r \<noteq> []"
  shows "r = r0
         \<and> out = [emit (adapter \<sigma>') (ToRoomExceptSender r s) (MemberLeft u),
                  emit (adapter \<sigma>') (ToRoom r) (RoomStateEv (Map_values (membership \<sigma>' r)))]"
proof (cases "Map_get (rooms \<sigma>) r0")
  case None
  with assms show ?thesis
    by (auto simp: leave_room_def Let_def membership_def)
next
  case (Some room)
  show ?thesis
  proof (cases "r = r0")
    case True
    with assms Some show ?thesis
      by (auto simp: leave_room_def Let_def membership_def Map_size_def Map_get_set
            Map_get_delete split: if_splits)
  next
    case False
    with assms Some show ?thesis
      by (auto simp: leave_room_def Let_def membership_def Map_size_def Map_get_set
            Map_get_delete split: if_splits)
  qed
qed

lemma disconnect_snapshot:
  assumes ok: "server_ok \<sigma>" and eq: "disconnect \<sigma> s = (\<sigma>', out)"
    and ch: "membership \<sigma>' r \<noteq> membership \<sigma> r" and ne: "membership \<sigma>' r \<noteq> []"
  shows "emit (adapter \<sigma>') (ToRoom r) (RoomStateEv (Map_values (membership \<sigma>' r))) \<in> set out
         \<and> (\<forall>e \<in> set out. \<forall>ms. target e = ToRoom r \<and> payload e = RoomStateEv ms
               \<longrightarrow> ms = Map_values (membership \<sigma>' r))"
proof -
  from ok have dist: "distinct (map fst (rooms \<sigma>))"
    by (simp add: server_ok_def Map_ok_def)
  have m': "membership \<sigma>' r =
              (if Map_has (membership \<sigma> r) s then Map_delete (membership \<sigma> r) s
               else membership \<sigma> r)"
    using disconnect_membership [OF ok, of s r] eq by simp
  with ch have has: "Map_has (membership \<sigma> r) s"
    and after: "membership \<sigma>' r = Map_delete (membership \<sigma> r) s"
    by (auto split: if_splits)
  from has obtain room where room: "Map_get (rooms \<sigma>) r = Some room"
    by (auto simp: membership_def Map_has_def split: option.splits)
  then have mem: "membership \<sigma> r = members room" by (simp add: membership_def)
  from has mem obtain user where user: "Map_get (members room) s = Some user"
    by (auto simp: Map_has_def)
  have A: "adapter \<sigma>' = adapter \<sigma>" using disconnect_adapter [of \<sigma> s] eq by simp
  have out: "out = concat (map (room_emissions (adapter \<sigma>) s) (rooms \<sigma>))"
    using disconnect_out [OF ok, of s] eq by simp
  let ?snap = "emit (adapter \<sigma>) (ToRoom r) (RoomStateEv (Map_values (Map_delete (members room) s)))"
  have here: "room_emissions (adapter \<sigma>) s (r, room) =
                [emit (adapter \<sigma>) (ToRoomExceptSender r s) (MemberLeft user), ?snap]"
    using user ne after mem by (simp add: room_emissions_def)
  have "(r, room) \<in> set (rooms \<sigma>)" using room by (rule Map_get_Some_mem)
  then have "set (room_emissions (adapter \<sigma>) s (r, room)) \<subseteq> set out"
    unfolding out by auto
  with here have ex: "?snap \<in> set out" by simp
  have uniq: "ms = Map_values (Map_delete (members room) s)"
    if e: "e \<in> set out" and t: "target e = ToRoom r" and p: "payload e = RoomStateEv ms"
    for e ms
  proof -
    from e out obtain q where q: "q \<in> set (rooms \<sigma>)"
      and eq': "e \<in> set (room_emissions (adapter \<sigma>) s q)" by auto
    obtain k room' where qk: "q = (k, room')" by (cases q)
    from eq' t p have "k = r \<and> ms = Map_values (Map_delete (members room') s)"
      unfolding qk
      by (auto simp: room_emissions_def emit_def split: option.splits if_splits)
    moreover from this q qk have "Map_get (rooms \<sigma>) r = Some room'"
      using Map_get_distinct_mem [OF dist] by simp
    ultimately show ?thesis using room by simp
  qed
  show ?thesis using ex uniq A after mem by auto
qed

text \<open>
  When a leave-room or disconnect event does change the member table of room \<open>r\<close> and
  leaves it non-empty, in a state whose tables have unique keys, the event emits the
  room-state snapshot to the whole broadcast room. For a disconnect the member table
  changes only if a member key is the id of the closing socket
  (\<open>disconnect_membership\<close>, \<open>disconnect_unknown_socket\<close>).
\<close>

lemma removal_snapshot:
  assumes ok: "server_ok \<sigma>" and rem: "is_removal ev"
    and h: "handle parse now \<sigma> s ev = Inr (\<sigma>', out)"
    and ch: "membership \<sigma>' r \<noteq> membership \<sigma> r" and ne: "membership \<sigma>' r \<noteq> []"
  shows "(\<exists>e \<in> set out. target e = ToRoom r
            \<and> payload e = RoomStateEv (Map_values (membership \<sigma>' r))
            \<and> set (receivers e) = {c. (c, r) \<in> set (adapter \<sigma>')})
         \<and> (\<forall>e \<in> set out. \<forall>ms. target e = ToRoom r \<and> payload e = RoomStateEv ms
               \<longrightarrow> ms = Map_values (membership \<sigma>' r))"
proof -
  let ?snap = "emit (adapter \<sigma>') (ToRoom r) (RoomStateEv (Map_values (membership \<sigma>' r)))"
  have snap: "target ?snap = ToRoom r
              \<and> payload ?snap = RoomStateEv (Map_values (membership \<sigma>' r))
              \<and> set (receivers ?snap) = {c. (c, r) \<in> set (adapter \<sigma>')}"
    by (simp add: emit_def set_sockets_in)
  have "?snap \<in> set out
        \<and> (\<forall>e \<in> set out. \<forall>ms. target e = ToRoom r \<and> payload e = RoomStateEv ms
              \<longrightarrow> ms = Map_values (membership \<sigma>' r))"
  proof (cases ev)
    case (LeaveRoom r0 u)
    with h have "leave_room \<sigma> s r0 u = (\<sigma>', out)" by simp
    from leave_room_snapshot [OF this ch ne] show ?thesis
      by (auto simp: emit_def)
  next
    case Disconnect
    let ?\<sigma>0 = "\<sigma>\<lparr>adapter := leaveAll (adapter \<sigma>) s\<rparr>"
    have ok0: "server_ok ?\<sigma>0" using ok by (simp add: server_ok_def)
    have m0: "membership ?\<sigma>0 r = membership \<sigma> r" by (simp add: membership_def)
    from h Disconnect have eq: "disconnect ?\<sigma>0 s = (\<sigma>', out)" by simp
    from disconnect_snapshot [OF ok0 eq] ch ne m0 show ?thesis by simp
  qed (use rem in simp_all)
  with snap show ?thesis by blast
qed

lemma leave_room_sends_snapshot:
  assumes "Map_get (rooms \<sigma>) r = Some room"
    and "Map_delete (members room) (m_id u) \<noteq> []"
  shows "\<exists>\<sigma>'. leave_room \<sigma> s r u =
                (\<sigma>', [emit (adapter \<sigma>') (ToRoomExceptSender r s) (MemberLeft u),
                      emit (adapter \<sigma>') (ToRoom r)
                        (RoomStateEv (Map_values (membership \<sigma>' r)))])
              \<and> membership \<sigma>' r = Map_delete (members room) (m_id u)"
  using assms
  by (simp add: leave_room_def Let_def Map_size_def membership_def Map_get_set_same)

text \<open>
  C7 asks that every leave-room or disconnect that removes a member and leaves the room
  non-empty sends the remaining connections a room-state snapshot with the members that
  remain. The leave-room handler does so whenever the room exists and stays non-empty:
  it emits member-left and then the snapshot of the member table after the removal to
  every socket joined to the room. The disconnect handler does not, by the defect of C1:
  with \<open>alice\<close> on socket \<open>s1\<close> and \<open>bob\<close> on socket \<open>s2\<close> in room \<open>abc\<close>, the
  disconnect of \<open>s2\<close> emits nothing, so \<open>s1\<close> receives no snapshot, and \<open>bob\<close> stays in
  the member table.
\<close>

theorem C7_disconnect_sends_no_snapshot:
  "(Map_get (rooms \<sigma>) r = Some room \<and> Map_delete (members room) (m_id u) \<noteq> [] \<longrightarrow>
      (\<exists>\<sigma>'. handle parse now \<sigma> s (LeaveRoom r u) =
               Inr (\<sigma>', [emit (adapter \<sigma>') (ToRoomExceptSender r s) (MemberLeft u),
                         emit (adapter \<sigma>') (ToRoom r)
                           (RoomStateEv (Map_values (membership \<sigma>' r)))])
             \<and> membership \<sigma>' r = Map_delete (members room) (m_id u)
             \<and> set (receivers (emit (adapter \<sigma>') (ToRoom r)
                                 (RoomStateEv (Map_values (membership \<sigma>' r)))))
                 = {c. (c, r) \<in> set (adapter \<sigma>')}))
   \<and> membership room_abc ''abc'' = [(''u1'', alice), (''u2'', bob)]
   \<and> handle parseURL ''t3'' room_abc ''s2'' Disconnect =
       Inr (\<lparr>rooms = rooms room_abc, adapter = [(''s1'', ''abc'')]\<rparr>, [])"
proof -
  have leave: "Map_get (rooms \<sigma>) r = Some room \<and> Map_delete (members room) (m_id u) \<noteq> []
      \<longrightarrow> (\<exists>\<sigma>'. handle parse now \<sigma> s (LeaveRoom r u) =
               Inr (\<sigma>', [emit (adapter \<sigma>') (ToRoomExceptSender r s) (MemberLeft u),
                         emit (adapter \<sigma>') (ToRoom r)
                           (RoomStateEv (Map_values (membership \<sigma>' r)))])
             \<and> membership \<sigma>' r = Map_delete (members room) (m_id u)
             \<and> set (receivers (emit (adapter \<sigma>') (ToRoom r)
                                 (RoomStateEv (Map_values (membership \<sigma>' r)))))
                 = {c. (c, r) \<in> set (adapter \<sigma>')})"
  proof
    assume h: "Map_get (rooms \<sigma>) r = Some room \<and> Map_delete (members room) (m_id u) \<noteq> []"
    then obtain \<sigma>' where
      eq: "leave_room \<sigma> s r u =
             (\<sigma>', [emit (adapter \<sigma>') (ToRoomExceptSender r s) (MemberLeft u),
                   emit (adapter \<sigma>') (ToRoom r)
                     (RoomStateEv (Map_values (membership \<sigma>' r)))])"
      and m: "membership \<sigma>' r = Map_delete (members room) (m_id u)"
      using leave_room_sends_snapshot [of \<sigma> r room u s] by blast
    have rc: "set (receivers (emit (adapter \<sigma>') (ToRoom r)
                                (RoomStateEv (Map_values (membership \<sigma>' r)))))
                = {c. (c, r) \<in> set (adapter \<sigma>')}"
      by (simp add: emit_def set_sockets_in)
    show "\<exists>\<sigma>'. handle parse now \<sigma> s (LeaveRoom r u) =
               Inr (\<sigma>', [emit (adapter \<sigma>') (ToRoomExceptSender r s) (MemberLeft u),
                         emit (adapter \<sigma>') (ToRoom r)
                           (RoomStateEv (Map_values (membership \<sigma>' r)))])
             \<and> membership \<sigma>' r = Map_delete (members room) (m_id u)
             \<and> set (receivers (emit (adapter \<sigma>') (ToRoom r)
                                 (RoomStateEv (Map_values (membership \<sigma>' r)))))
                 = {c. (c, r) \<in> set (adapter \<sigma>')}"
      using eq m rc by (intro exI [of _ \<sigma>']) simp
  qed
  have before: "membership room_abc ''abc'' = [(''u1'', alice), (''u2'', bob)]"
    by (simp add: room_abc_def membership_def)
  have disc: "handle parseURL ''t3'' room_abc ''s2'' Disconnect =
                Inr (\<lparr>rooms = rooms room_abc, adapter = [(''s1'', ''abc'')]\<rparr>, [])"
    by (simp add: room_abc_def disconnect_def leaveAll_def alice_def bob_def)
  show ?thesis using leave before disc by blast
qed

theorem C7_disconnect_sends_no_snapshot_witness:
  "Map_get (rooms room_abc) ''abc''
     = Some \<lparr>members = [(''u1'', alice), (''u2'', bob)], videoState = None\<rparr>
   \<and> Map_delete [(''u1'', alice), (''u2'', bob)] (m_id bob) \<noteq> []
   \<and> (\<exists>\<sigma>'. handle parseURL ''t'' room_abc ''s2'' (LeaveRoom ''abc'' bob) =
              Inr (\<sigma>', [emit (adapter \<sigma>') (ToRoomExceptSender ''abc'' ''s2'') (MemberLeft bob),
                        emit (adapter \<sigma>') (ToRoom ''abc'')
                          (RoomStateEv (Map_values (membership \<sigma>' ''abc'')))])
            \<and> membership \<sigma>' ''abc'' = [(''u1'', alice)])
   \<and> handle parseURL ''t3'' room_abc ''s2'' Disconnect =
       Inr (\<lparr>rooms = rooms room_abc, adapter = [(''s1'', ''abc'')]\<rparr>, [])"
proof -
  let ?room = "\<lparr>members = [(''u1'', alice), (''u2'', bob)], videoState = None\<rparr>"
  have g: "Map_get (rooms room_abc) ''abc'' = Some ?room"
    by (simp add: room_abc_def)
  have d: "Map_delete [(''u1'', alice), (''u2'', bob)] (m_id bob) = [(''u1'', alice)]"
    by (simp add: bob_def)
  note t = C7_disconnect_sends_no_snapshot
             [of room_abc "''abc''" ?room bob parseURL "''t''" "''s2''"]
  have l: "\<exists>\<sigma>'. handle parseURL ''t'' room_abc ''s2'' (LeaveRoom ''abc'' bob) =
              Inr (\<sigma>', [emit (adapter \<sigma>') (ToRoomExceptSender ''abc'' ''s2'') (MemberLeft bob),
                        emit (adapter \<sigma>') (ToRoom ''abc'')
                          (RoomStateEv (Map_values (membership \<sigma>' ''abc'')))])
            \<and> membership \<sigma>' ''abc'' = [(''u1'', alice)]"
    using t g d by auto
  have disc: "handle parseURL ''t3'' room_abc ''s2'' Disconnect =
                Inr (\<lparr>rooms = rooms room_abc, adapter = [(''s1'', ''abc'')]\<rparr>, [])"
    using t by blast
  show ?thesis using g d l disc by simp
qed

subsection \<open>C8: member-left never reaches the departing socket\<close>

text \<open>
  C8. In any state, every member-left emission of an event of socket \<open>s\<close> is sent with
  \<open>socket.to(room)\<close>: its receivers are the sockets joined to that room other than
  \<open>s\<close>, so \<open>s\<close> is not among them; and the event is a leave-room or a disconnect.
\<close>

theorem C8_member_left_not_to_sender:
  assumes "handle parse now \<sigma> s ev = Inr (\<sigma>', out)"
    and "e \<in> set out" and "payload e = MemberLeft m"
  shows "s \<notin> set (receivers e)
         \<and> (\<exists>r. target e = ToRoomExceptSender r s
                \<and> set (receivers e) = {c. (c, r) \<in> set (adapter \<sigma>') \<and> c \<noteq> s})
         \<and> is_removal ev"
proof -
  from handle_left_ok [OF assms(1)] assms(2) have "left_ok (adapter \<sigma>') s e"
    by (simp add: list_all_iff)
  with assms(3) obtain r where t: "target e = ToRoomExceptSender r s"
    and rc: "receivers e = recipients (adapter \<sigma>') (ToRoomExceptSender r s)"
    by (auto simp: left_ok_def split: target.splits)
  from rc have "set (receivers e) = {c. (c, r) \<in> set (adapter \<sigma>') \<and> c \<noteq> s}"
    by (simp only: set_recipients_except)
  moreover have "is_removal ev"
    using assms by (rule handle_member_left_removal)
  ultimately show ?thesis using t by auto
qed

theorem C8_member_left_not_to_sender_witness:
  "handle parseURL ''t'' room_xyz ''s2'' Disconnect =
     Inr (\<lparr>rooms = [(''xyz'', \<lparr>members = [(''s1'', dave)], videoState = None\<rparr>)],
           adapter = [(''s1'', ''xyz'')]\<rparr>,
          [\<lparr>target = ToRoomExceptSender ''xyz'' ''s2'', receivers = [''s1''],
            payload = MemberLeft erin\<rparr>,
           \<lparr>target = ToRoom ''xyz'', receivers = [''s1''],
            payload = RoomStateEv [dave]\<rparr>])
   \<and> ''s2'' \<notin> set (receivers \<lparr>target = ToRoomExceptSender ''xyz'' ''s2'', receivers = [''s1''],
                                payload = MemberLeft erin\<rparr>)
   \<and> handle parseURL ''t'' room_abc ''s2'' (LeaveRoom ''abc'' bob) =
     Inr (\<lparr>rooms = [(''abc'', \<lparr>members = [(''u1'', alice)], videoState = None\<rparr>)],
           adapter = [(''s1'', ''abc'')]\<rparr>,
          [\<lparr>target = ToRoomExceptSender ''abc'' ''s2'', receivers = [''s1''],
            payload = MemberLeft bob\<rparr>,
           \<lparr>target = ToRoom ''abc'', receivers = [''s1''],
            payload = RoomStateEv [alice]\<rparr>])
   \<and> ''s2'' \<notin> set (receivers \<lparr>target = ToRoomExceptSender ''abc'' ''s2'', receivers = [''s1''],
                                payload = MemberLeft bob\<rparr>)"
proof -
  let ?ex = "\<lparr>target = ToRoomExceptSender ''xyz'' ''s2'', receivers = [''s1''],
              payload = MemberLeft erin\<rparr>"
  let ?ea = "\<lparr>target = ToRoomExceptSender ''abc'' ''s2'', receivers = [''s1''],
              payload = MemberLeft bob\<rparr>"
  have x: "''s2'' \<notin> set (receivers ?ex)"
    using C8_member_left_not_to_sender [OF room_xyz_disconnect, of ?ex erin] by simp
  have a: "''s2'' \<notin> set (receivers ?ea)"
    using C8_member_left_not_to_sender [OF room_abc_leave, of ?ea bob] by simp
  show ?thesis using x a room_xyz_disconnect room_abc_leave by blast
qed

subsection \<open>C9: chat-message\<close>

text \<open>
  C9. A chat-message event on room \<open>r\<close> changes no state and emits exactly one
  new-message event, carrying the member of the event, the message text and the
  server's clock reading, to every socket joined to \<open>r\<close>; the sender receives it
  exactly when it has joined \<open>r\<close>. The handler of src/src/server/socket.ts does the
  same with the socket id of the sender in place of the member.
\<close>

theorem C9_chat_message_to_whole_room:
  "chat_message now \<sigma> s r msg u =
     (\<sigma>, [\<lparr>target = ToRoom r, receivers = sockets_in (adapter \<sigma>) r,
            payload = NewMessage u msg now\<rparr>])
   \<and> set (sockets_in (adapter \<sigma>) r) = {c. (c, r) \<in> set (adapter \<sigma>)}
   \<and> (s \<in> set (sockets_in (adapter \<sigma>) r) \<longleftrightarrow> (s, r) \<in> set (adapter \<sigma>))
   \<and> initSocket_chat_message now A s r msg =
       [\<lparr>target = ToRoom r, receivers = sockets_in A r,
         payload = NewMessageFrom s msg now\<rparr>]
   \<and> set (sockets_in A r) = {c. (c, r) \<in> set A}"
  by (simp add: chat_message_def initSocket_chat_message_def emit_def set_sockets_in)

subsection \<open>C10: convertToEmbedUrl\<close>

text \<open>
  C10 as stated fails: a video id may itself begin a query, and then the embed url is
  rewritten again.
\<close>

theorem C10_counterexample:
  "convertToEmbedUrl parseURL ''https://www.youtube.com/watch?v=?v=x''
     = ''https://www.youtube.com/embed/?v=x''
   \<and> convertToEmbedUrl parseURL
       (convertToEmbedUrl parseURL ''https://www.youtube.com/watch?v=?v=x'')
     = ''https://www.youtube.com/embed/x''"
  by (simp add: convertToEmbedUrl_def parse_watch_qv parse_embed_qv watch_videoId_def
        searchParams_get_def)

text \<open>
  C10, amended. For every parser: \<open>convertToEmbedUrl\<close> is the identity on every input
  that is not a youtube.com URL with a non-empty \<open>v\<close> parameter or a youtu.be URL, and
  so on every string that fails to parse; and applying it twice equals applying it once
  on every input whose converted URL is again such an input. With the sample parser
  that is the case of every watch link whose video id is made of letters, digits,
  \<open>-\<close> and \<open>_\<close>.
\<close>

theorem C10_convertToEmbedUrl_fixed_points:
  "(\<not> convertible parse u \<longrightarrow> convertToEmbedUrl parse u = u)
   \<and> (parse u = None \<longrightarrow> convertToEmbedUrl parse u = u)
   \<and> (\<not> convertible parse (convertToEmbedUrl parse u) \<longrightarrow>
        convertToEmbedUrl parse (convertToEmbedUrl parse u) = convertToEmbedUrl parse u)
   \<and> (list_all plain_char vid \<and> vid \<noteq> [] \<longrightarrow>
        convertToEmbedUrl parseURL (''https://www.youtube.com/watch?v='' @ vid)
          = ''https://www.youtube.com/embed/'' @ vid
        \<and> convertToEmbedUrl parseURL
            (convertToEmbedUrl parseURL (''https://www.youtube.com/watch?v='' @ vid))
          = convertToEmbedUrl parseURL (''https://www.youtube.com/watch?v='' @ vid))"
proof -
  have fixed: "\<not> convertible parse u \<longrightarrow> convertToEmbedUrl parse u = u"
    by (simp add: convertToEmbedUrl_fixed)
  have unparsed: "parse u = None \<longrightarrow> convertToEmbedUrl parse u = u"
    by (simp add: convertToEmbedUrl_def)
  have twice: "\<not> convertible parse (convertToEmbedUrl parse u) \<longrightarrow>
                 convertToEmbedUrl parse (convertToEmbedUrl parse u)
                   = convertToEmbedUrl parse u"
    by (simp add: convertToEmbedUrl_fixed)
  have plain: "list_all plain_char vid \<and> vid \<noteq> [] \<longrightarrow>
        convertToEmbedUrl parseURL (''https://www.youtube.com/watch?v='' @ vid)
          = ''https://www.youtube.com/embed/'' @ vid
        \<and> convertToEmbedUrl parseURL
            (convertToEmbedUrl parseURL (''https://www.youtube.com/watch?v='' @ vid))
          = convertToEmbedUrl parseURL (''https://www.youtube.com/watch?v='' @ vid)"
  proof
    assume h: "list_all plain_char vid \<and> vid \<noteq> []"
    then have w: "convertToEmbedUrl parseURL (''https://www.youtube.com/watch?v='' @ vid)
                    = ''https://www.youtube.com/embed/'' @ vid"
      and e: "convertToEmbedUrl parseURL (''https://www.youtube.com/embed/'' @ vid)
                    = ''https://www.youtube.com/embed/'' @ vid"
      using convertToEmbedUrl_plain_id [of vid] by blast+
    show "convertToEmbedUrl parseURL (''https://www.youtube.com/watch?v='' @ vid)
            = ''https://www.youtube.com/embed/'' @ vid
          \<and> convertToEmbedUrl parseURL
              (convertToEmbedUrl parseURL (''https://www.youtube.com/watch?v='' @ vid))
            = convertToEmbedUrl parseURL (''https://www.youtube.com/watch?v='' @ vid)"
      unfolding w e by simp
  qed
  show ?thesis using fixed unparsed twice plain by blast
qed

theorem C10_convertToEmbedUrl_fixed_points_witness:
  "\<not> convertible parseURL ''https://www.youtube.com/embed/abc''
   \<and> convertToEmbedUrl parseURL ''https://www.youtube.com/embed/abc''
       = ''https://www.youtube.com/embed/abc''
   \<and> parseURL ''not a url'' = None
   \<and> convertToEmbedUrl parseURL ''not a url'' = ''not a url''
   \<and> convertToEmbedUrl parseURL ''https://youtu.be/abc'' = ''https://www.youtube.com/embed/abc''
   \<and> \<not> convertible parseURL (convertToEmbedUrl parseURL ''https://youtu.be/abc'')
   \<and> convertToEmbedUrl parseURL (convertToEmbedUrl parseURL ''https://youtu.be/abc'')
       = convertToEmbedUrl parseURL ''https://youtu.be/abc''
   \<and> list_all plain_char ''abc'' \<and> ''abc'' \<noteq> []
   \<and> convertToEmbedUrl parseURL (''https://www.youtube.com/watch?v='' @ ''abc'')
       = ''https://www.youtube.com/embed/'' @ ''abc''
   \<and> convertToEmbedUrl parseURL
         (convertToEmbedUrl parseURL (''https://www.youtube.com/watch?v='' @ ''abc''))
       = convertToEmbedUrl parseURL (''https://www.youtube.com/watch?v='' @ ''abc'')"
proof -
  have c: "convertToEmbedUrl parseURL ''https://youtu.be/abc''
             = ''https://www.youtube.com/embed/abc''"
    by (simp add: convertToEmbedUrl_def parse_youtu_be watch_videoId_def)
  have n: "\<not> convertible parseURL ''https://www.youtube.com/embed/abc''"
    by (simp add: convertible_def parse_embed_abc watch_videoId_def searchParams_get_def)
  have p: "list_all plain_char ''abc'' \<and> ''abc'' \<noteq> []"
    by (simp add: plain_char_def)
  have a: "\<not> convertible parseURL ''https://www.youtube.com/embed/abc''
           \<and> convertToEmbedUrl parseURL ''https://www.youtube.com/embed/abc''
               = ''https://www.youtube.com/embed/abc''"
    using C10_convertToEmbedUrl_fixed_points
            [of parseURL "''https://www.youtube.com/embed/abc''" "''abc''"] n
    by blast
  have b: "parseURL ''not a url'' = None
           \<and> convertToEmbedUrl parseURL ''not a url'' = ''not a url''"
    using C10_convertToEmbedUrl_fixed_points [of parseURL "''not a url''" "''abc''"]
      parse_not_a_url
    by blast
  have d: "\<not> convertible parseURL (convertToEmbedUrl parseURL ''https://youtu.be/abc'')
           \<and> convertToEmbedUrl parseURL (convertToEmbedUrl parseURL ''https://youtu.be/abc'')
               = convertToEmbedUrl parseURL ''https://youtu.be/abc''"
    using C10_convertToEmbedUrl_fixed_points [of parseURL "''https://youtu.be/abc''" "''abc''"]
      n
    unfolding c by blast
  have e: "convertToEmbedUrl parseURL (''https://www.youtube.com/watch?v='' @ ''abc'')
             = ''https://www.youtube.com/embed/'' @ ''abc''
           \<and> convertToEmbedUrl parseURL
               (convertToEmbedUrl parseURL (''https://www.youtube.com/watch?v='' @ ''abc''))
             = convertToEmbedUrl parseURL (''https://www.youtube.com/watch?v='' @ ''abc'')"
    using C10_convertToEmbedUrl_fixed_points [of parseURL "''x''" "''abc''"] p
    by blast
  show ?thesis using a b c d e p by blast
qed

end
